theory Spec2Isabelle
  imports Main "HOL-Library.Sublist"
begin

section \<open>Data model\<close>

text \<open>
  The script \<^verbatim>\<open>register_ou_control_tower.py\<close> drives the Control Tower API through a
  boto3 client. Python exceptions are values: \<open>ClientError code message\<close> is botocore's
  \<^verbatim>\<open>ClientError\<close> with \<^verbatim>\<open>e.response['Error']['Code']\<close> and
  \<^verbatim>\<open>e.response['Error']['Message']\<close>; \<open>Exception msg\<close> is any other subclass of
  \<^verbatim>\<open>Exception\<close> (the ones the script raises itself, and client-side failures of botocore
  that are not a \<^verbatim>\<open>ClientError\<close>).
\<close>

datatype exn = ClientError string string | Exception string

text \<open>An entry of \<^verbatim>\<open>response['baselines']\<close> and of \<^verbatim>\<open>response['enabledBaselines']\<close>.\<close>

record baseline =
  baseline_name :: string
  baseline_arn :: string

record enabled_baseline =
  enabled_arn :: string

text \<open>An element of the \<^verbatim>\<open>ous\<close> list: \<^verbatim>\<open>ou['id']\<close> and \<^verbatim>\<open>ou['arn']\<close>.\<close>

record organizational_unit =
  key_id :: string
  key_arn :: string

text \<open>The keyword arguments of \<^verbatim>\<open>client.enable_baseline\<close>.\<close>

record enable_request =
  baselineIdentifier :: string
  baselineVersion :: string
  targetIdentifier :: string
  parameters :: "(string \<times> string) list"

text \<open>
  The response dictionaries. \<open>operationIdentifier r\<close> is
  \<^verbatim>\<open>response.get('operationIdentifier')\<close>: \<open>None\<close> when the key is absent.
  \<open>baselineOperation r\<close> is \<open>None\<close> when the key is absent, so that
  \<^verbatim>\<open>response.get('baselineOperation', {}).get('status')\<close> is \<open>None\<close> then, and
  otherwise the \<open>status\<close> of the inner dictionary (again \<open>None\<close> when absent).
\<close>

record enable_response =
  operationIdentifier :: "string option"

record baseline_operation =
  status :: "string option"

record operation_response =
  baselineOperation :: "baseline_operation option"

text \<open>
  The boto3 client is the environment. The two list calls are made once per run; the
  answer to an \<^verbatim>\<open>enable_baseline\<close> or \<^verbatim>\<open>get_baseline_operation\<close> call may differ
  from call to call, so it is a function of the number of earlier calls of the same kind
  and of the arguments.
\<close>

record client =
  list_baselines :: "exn + baseline list"
  list_enabled_baselines :: "exn + enabled_baseline list"
  enable_baseline_api :: "nat \<Rightarrow> enable_request \<Rightarrow> exn + enable_response"
  get_baseline_operation :: "nat \<Rightarrow> string \<Rightarrow> exn + operation_response"

text \<open>Every \<^verbatim>\<open>print\<close> of the script, with the values it interpolates.\<close>

datatype printed =
    EnableBaselineResponse enable_response
  | ClientErrorInEnableBaseline exn
  | AlreadyRegisteredWithControlTower string
  | AnotherOperationInProgress string
  | BaselineOperationResponse operation_response
  | OperationStatus string
  | StatusNotFound operation_response
  | ErrorCheckingOperationStatus exn
  | ErrorWhileWaiting exn
  | RegisteringOU string
  | SuccessfullyRegisteredOU string
  | FailedToRegisterOU string
  | SkippedOU string
  | ErrorRegisteringOU string exn
  | ErrorGettingBaselineInformation exn
  | StoppingTheProcess string

text \<open>
  The effects of a run, oldest first: the API calls made, the \<^verbatim>\<open>time.sleep\<close> calls and
  the lines printed.
\<close>

datatype event =
    CallListBaselines
  | CallListEnabledBaselines
  | CallEnableBaseline enable_request
  | CallGetBaselineOperation string
  | Sleep nat
  | Print printed

type_synonym world = "event list"

datatype exit_status = Returned | SystemExit int

section \<open>Effects\<close>

fun is_enable_call :: "event \<Rightarrow> bool" where
  "is_enable_call (CallEnableBaseline _) = True"
| "is_enable_call _ = False"

fun is_poll_call :: "event \<Rightarrow> bool" where
  "is_poll_call (CallGetBaselineOperation _) = True"
| "is_poll_call _ = False"

fun sleep_time :: "event \<Rightarrow> nat" where
  "sleep_time (Sleep n) = n"
| "sleep_time _ = 0"

definition enable_calls :: "world \<Rightarrow> nat" where
  "enable_calls w = length (filter is_enable_call w)"

definition poll_calls :: "world \<Rightarrow> nat" where
  "poll_calls w = length (filter is_poll_call w)"

definition slept :: "world \<Rightarrow> nat" where
  "slept w = sum_list (map sleep_time w)"

definition print :: "printed \<Rightarrow> world \<Rightarrow> world" where
  "print p w = w @ [Print p]"

definition sleep :: "nat \<Rightarrow> world \<Rightarrow> world" where
  "sleep n w = w @ [Sleep n]"

definition call_list_baselines :: "client \<Rightarrow> world \<Rightarrow> (exn + baseline list) \<times> world" where
  "call_list_baselines c w = (list_baselines c, w @ [CallListBaselines])"

definition call_list_enabled_baselines ::
  "client \<Rightarrow> world \<Rightarrow> (exn + enabled_baseline list) \<times> world" where
  "call_list_enabled_baselines c w = (list_enabled_baselines c, w @ [CallListEnabledBaselines])"

definition call_enable_baseline ::
  "client \<Rightarrow> enable_request \<Rightarrow> world \<Rightarrow> (exn + enable_response) \<times> world" where
  "call_enable_baseline c req w =
     (enable_baseline_api c (enable_calls w) req, w @ [CallEnableBaseline req])"

definition call_get_baseline_operation ::
  "client \<Rightarrow> string \<Rightarrow> world \<Rightarrow> (exn + operation_response) \<times> world" where
  "call_get_baseline_operation c operation_id w =
     (get_baseline_operation c (poll_calls w) operation_id,
      w @ [CallGetBaselineOperation operation_id])"

section \<open>Python's string and truth tests\<close>

text \<open>\<^verbatim>\<open>sub in s\<close> on strings: \<open>sub\<close> occurs in \<open>s\<close> as a contiguous block.\<close>

fun py_in :: "string \<Rightarrow> string \<Rightarrow> bool" where
  "py_in sub [] = (sub = [])"
| "py_in sub (c # cs) = (prefix sub (c # cs) \<or> py_in sub cs)"

text \<open>The truth value of a \<^verbatim>\<open>str\<close>-or-\<^verbatim>\<open>None\<close>: false for \<^verbatim>\<open>None\<close> and for \<^verbatim>\<open>''\<close>.\<close>

fun truthy :: "string option \<Rightarrow> bool" where
  "truthy None = False"
| "truthy (Some s) = (s \<noteq> [])"

section \<open>Baseline Resolver\<close>

fun find_baseline :: "baseline list \<Rightarrow> exn + string" where
  "find_baseline [] = Inl (Exception ''AWSControlTowerBaseline not found'')"
| "find_baseline (b # bs) =
     (if baseline_name b = ''AWSControlTowerBaseline'' then Inr (baseline_arn b)
      else find_baseline bs)"

definition get_baseline_identifier :: "client \<Rightarrow> world \<Rightarrow> (exn + string) \<times> world" where
  "get_baseline_identifier c w =
     (case call_list_baselines c w of
        (Inl e, w1) \<Rightarrow> (Inl e, w1)
      | (Inr baselines, w1) \<Rightarrow> (find_baseline baselines, w1))"

fun find_enabled_baseline :: "enabled_baseline list \<Rightarrow> exn + string" where
  "find_enabled_baseline [] = Inl (Exception ''IdentityCenterBaseline not found'')"
| "find_enabled_baseline (b # bs) =
     (if py_in ''arn'' (enabled_arn b) then Inr (enabled_arn b)
      else find_enabled_baseline bs)"

definition get_identity_center_enabled_baseline_arn ::
  "client \<Rightarrow> world \<Rightarrow> (exn + string) \<times> world" where
  "get_identity_center_enabled_baseline_arn c w =
     (case call_list_enabled_baselines c w of
        (Inl e, w1) \<Rightarrow> (Inl e, w1)
      | (Inr baselines, w1) \<Rightarrow> (find_enabled_baseline baselines, w1))"

section \<open>Baseline Enabler\<close>

definition enable_request_for :: "string \<Rightarrow> string \<Rightarrow> string \<Rightarrow> enable_request" where
  "enable_request_for ou_arn baseline_identifier identity_center_arn =
     \<lparr>baselineIdentifier = baseline_identifier,
      baselineVersion = ''4.0'',
      targetIdentifier = ou_arn,
      parameters = [(''IdentityCenterEnabledBaselineArn'', identity_center_arn)]\<rparr>"

text \<open>
  The result is the Python return value (\<open>None\<close>, the sentinel \<^verbatim>\<open>'IN_PROGRESS'\<close> or the
  operation identifier) or the exception that leaves the function.
\<close>

definition enable_baseline ::
  "client \<Rightarrow> string \<Rightarrow> string \<Rightarrow> string \<Rightarrow> string \<Rightarrow> world \<Rightarrow> (exn + string option) \<times> world"
where
  "enable_baseline c ou_id ou_arn baseline_identifier identity_center_arn w =
     (case call_enable_baseline c
             (enable_request_for ou_arn baseline_identifier identity_center_arn) w of
        (Inr response, w1) \<Rightarrow>
          (Inr (operationIdentifier response), print (EnableBaselineResponse response) w1)
      | (Inl (ClientError code message), w1) \<Rightarrow>
          (let w2 = print (ClientErrorInEnableBaseline (ClientError code message)) w1 in
           if code = ''ConflictException'' then
             if py_in ''already governed'' message then
               (Inr None, print (AlreadyRegisteredWithControlTower ou_id) w2)
             else if py_in ''another operation is in progress'' message then
               (Inr (Some ''IN_PROGRESS''), print (AnotherOperationInProgress ou_id) w2)
             else (Inl (ClientError code message), w2)
           else (Inl (ClientError code message), w2))
      | (Inl (Exception msg), w1) \<Rightarrow> (Inl (Exception msg), w1))"

section \<open>Operation Poller\<close>

text \<open>The \<^verbatim>\<open>for attempt in range(max_attempts)\<close> loop, by the number of attempts left.\<close>

fun check_operation_status_loop ::
  "client \<Rightarrow> string \<Rightarrow> nat \<Rightarrow> world \<Rightarrow> (exn + bool) \<times> world" where
  "check_operation_status_loop c operation_id 0 w = (Inr False, w)"
| "check_operation_status_loop c operation_id (Suc n) w =
     (case call_get_baseline_operation c operation_id w of
        (Inr response, w1) \<Rightarrow>
          (let w2 = print (BaselineOperationResponse response) w1;
               st = (case baselineOperation response of None \<Rightarrow> None | Some bo \<Rightarrow> status bo)
           in case st of
                Some s \<Rightarrow>
                  if s \<noteq> [] then
                    (let w3 = print (OperationStatus s) w2 in
                     if s = ''SUCCEEDED'' then (Inr True, w3)
                     else if s = ''FAILED'' then (Inr False, w3)
                     else check_operation_status_loop c operation_id n (sleep 30 w3))
                  else check_operation_status_loop c operation_id n
                         (sleep 30 (print (StatusNotFound response) w2))
              | None \<Rightarrow>
                  check_operation_status_loop c operation_id n
                    (sleep 30 (print (StatusNotFound response) w2)))
      | (Inl (ClientError code message), w1) \<Rightarrow>
          check_operation_status_loop c operation_id n
            (sleep 30 (print (ErrorCheckingOperationStatus (ClientError code message)) w1))
      | (Inl (Exception msg), w1) \<Rightarrow> (Inl (Exception msg), w1))"

definition check_operation_status :: "client \<Rightarrow> string \<Rightarrow> world \<Rightarrow> (exn + bool) \<times> world" where
  "check_operation_status c operation_id w = check_operation_status_loop c operation_id 40 w"

section \<open>Conflict Backoff Loop\<close>

fun wait_loop ::
  "client \<Rightarrow> string \<Rightarrow> string \<Rightarrow> string \<Rightarrow> string \<Rightarrow> nat \<Rightarrow> world \<Rightarrow> (exn + string option) \<times> world"
where
  "wait_loop c ou_id ou_arn baseline_identifier identity_center_arn 0 w =
     (Inl (Exception (''Timed out waiting for in-progress operations for OU '' @ ou_id)), w)"
| "wait_loop c ou_id ou_arn baseline_identifier identity_center_arn (Suc n) w =
     (case enable_baseline c ou_id ou_arn baseline_identifier identity_center_arn w of
        (Inr operation_id, w1) \<Rightarrow>
          if truthy operation_id \<and> operation_id \<noteq> Some ''IN_PROGRESS'' then
            (Inr operation_id, w1)
          else if operation_id = None then (Inr None, w1)
          else wait_loop c ou_id ou_arn baseline_identifier identity_center_arn n (sleep 60 w1)
      | (Inl e, w1) \<Rightarrow>
          wait_loop c ou_id ou_arn baseline_identifier identity_center_arn n
            (sleep 60 (print (ErrorWhileWaiting e) w1)))"

definition wait_for_in_progress_operations ::
  "client \<Rightarrow> string \<Rightarrow> string \<Rightarrow> string \<Rightarrow> string \<Rightarrow> world \<Rightarrow> (exn + string option) \<times> world"
where
  "wait_for_in_progress_operations c ou_id ou_arn baseline_identifier identity_center_arn w =
     wait_loop c ou_id ou_arn baseline_identifier identity_center_arn 20 w"

section \<open>OU Registrar\<close>

definition register_ou ::
  "client \<Rightarrow> string \<Rightarrow> string \<Rightarrow> string \<Rightarrow> string \<Rightarrow> world \<Rightarrow> bool \<times> world" where
  "register_ou c ou_id ou_arn baseline_identifier identity_center_arn w =
     (case wait_for_in_progress_operations c ou_id ou_arn baseline_identifier identity_center_arn
             (print (RegisteringOU ou_id) w) of
        (Inr operation_id, w1) \<Rightarrow>
          (case operation_id of
             Some s \<Rightarrow>
               if s \<noteq> [] then
                 (case check_operation_status c s w1 of
                    (Inr ok, w2) \<Rightarrow>
                      if ok then (True, print (SuccessfullyRegisteredOU ou_id) w2)
                      else (False, print (FailedToRegisterOU ou_id) w2)
                  | (Inl e, w2) \<Rightarrow> (False, print (ErrorRegisteringOU ou_id e) w2))
               else (True, print (SkippedOU ou_id) w1)
           | None \<Rightarrow> (True, print (SkippedOU ou_id) w1))
      | (Inl e, w1) \<Rightarrow> (False, print (ErrorRegisteringOU ou_id e) w1))"

section \<open>Batch Driver\<close>

fun register_ous_loop ::
  "client \<Rightarrow> organizational_unit list \<Rightarrow> string \<Rightarrow> string \<Rightarrow> world \<Rightarrow> exit_status \<times> world"
where
  "register_ous_loop c [] baseline_identifier identity_center_arn w = (Returned, w)"
| "register_ous_loop c (ou # ous) baseline_identifier identity_center_arn w =
     (case register_ou c (key_id ou) (key_arn ou) baseline_identifier identity_center_arn w of
        (success, w1) \<Rightarrow>
          if \<not> success then (SystemExit 1, print (StoppingTheProcess (key_id ou)) w1)
          else register_ous_loop c ous baseline_identifier identity_center_arn w1)"

text \<open>
  \<open>boto3_client region\<close> stands for \<^verbatim>\<open>boto3.client('controltower', region_name=region)\<close>.
  The two lookups share one \<^verbatim>\<open>try\<close>: a failure of either prints and exits with status 1.
\<close>

definition register_ous ::
  "(string \<Rightarrow> client) \<Rightarrow> string \<Rightarrow> organizational_unit list \<Rightarrow> world \<Rightarrow> exit_status \<times> world"
where
  "register_ous boto3_client region ous w =
     (let c = boto3_client region in
      case get_baseline_identifier c w of
        (Inl e, w1) \<Rightarrow> (SystemExit 1, print (ErrorGettingBaselineInformation e) w1)
      | (Inr baseline_identifier, w1) \<Rightarrow>
          (case get_identity_center_enabled_baseline_arn c w1 of
             (Inl e, w2) \<Rightarrow> (SystemExit 1, print (ErrorGettingBaselineInformation e) w2)
           | (Inr identity_center_arn, w2) \<Rightarrow>
               register_ous_loop c ous baseline_identifier identity_center_arn w2))"

section \<open>Observations\<close>

text \<open>
  What the control plane answered to a call, in the terms the script tests for. An
  \<^verbatim>\<open>enable_baseline\<close> answer is an already-governed conflict or an in-progress conflict
  when it is a \<^verbatim>\<open>ClientError\<close> with code \<^verbatim>\<open>ConflictException\<close> whose message holds the
  phrase; the script looks for \<^verbatim>\<open>'already governed'\<close> first.
\<close>

fun already_governed_conflict :: "exn + enable_response \<Rightarrow> bool" where
  "already_governed_conflict (Inl (ClientError code message)) =
     (code = ''ConflictException'' \<and> py_in ''already governed'' message)"
| "already_governed_conflict _ = False"

fun in_progress_conflict :: "exn + enable_response \<Rightarrow> bool" where
  "in_progress_conflict (Inl (ClientError code message)) =
     (code = ''ConflictException'' \<and> \<not> py_in ''already governed'' message \<and>
      py_in ''another operation is in progress'' message)"
| "in_progress_conflict _ = False"

text \<open>
  An answer after which the backoff loop sleeps and tries again: an error other than an
  already-governed conflict, or an acceptance whose identifier is the empty string or the
  sentinel.
\<close>

fun retried :: "exn + enable_response \<Rightarrow> bool" where
  "retried (Inl e) = (\<not> already_governed_conflict (Inl e))"
| "retried (Inr response) =
     (operationIdentifier response = Some [] \<or>
      operationIdentifier response = Some ''IN_PROGRESS'')"

text \<open>The status string a \<^verbatim>\<open>get_baseline_operation\<close> answer carries, if any.\<close>

fun poll_status :: "exn + operation_response \<Rightarrow> string option" where
  "poll_status (Inr response) =
     (case baselineOperation response of None \<Rightarrow> None | Some bo \<Rightarrow> status bo)"
| "poll_status (Inl e) = None"

definition succeeded :: "exn + operation_response \<Rightarrow> bool" where
  "succeeded r = (poll_status r = Some ''SUCCEEDED'')"

definition failed :: "exn + operation_response \<Rightarrow> bool" where
  "failed r = (poll_status r = Some ''FAILED'')"

definition terminal :: "exn + operation_response \<Rightarrow> bool" where
  "terminal r = (succeeded r \<or> failed r)"

text \<open>
  A poll that gets no answer from the service: the call raises an exception that is not a
  \<^verbatim>\<open>ClientError\<close>.
\<close>

fun unanswered :: "exn + 'a \<Rightarrow> bool" where
  "unanswered (Inl (Exception msg)) = True"
| "unanswered _ = False"

text \<open>The identifiers in the \<^verbatim>\<open>Registering OU\<close> lines of a trace, oldest first.\<close>

fun registering :: "event \<Rightarrow> string list" where
  "registering (Print (RegisteringOU i)) = [i]"
| "registering _ = []"

definition registrations :: "world \<Rightarrow> string list" where
  "registrations w = concat (map registering w)"

text \<open>The Registrar on one element of the list: its result and the world it leaves.\<close>

definition registrar_result ::
  "client \<Rightarrow> string \<Rightarrow> string \<Rightarrow> organizational_unit \<Rightarrow> world \<Rightarrow> bool" where
  "registrar_result c baseline_identifier identity_center_arn ou w =
     fst (register_ou c (key_id ou) (key_arn ou) baseline_identifier identity_center_arn w)"

definition registrar_world ::
  "client \<Rightarrow> string \<Rightarrow> string \<Rightarrow> organizational_unit \<Rightarrow> world \<Rightarrow> world" where
  "registrar_world c baseline_identifier identity_center_arn ou w =
     snd (register_ou c (key_id ou) (key_arn ou) baseline_identifier identity_center_arn w)"

section \<open>Sample environments\<close>

text \<open>A scripted answer: the \<open>k\<close>-th entry of a list, and a default after its end.\<close>

definition script :: "'a list \<Rightarrow> 'a \<Rightarrow> nat \<Rightarrow> 'a" where
  "script xs d k = (if k < length xs then xs ! k else d)"

definition accepted :: "string \<Rightarrow> exn + enable_response" where
  "accepted oid = Inr \<lparr>operationIdentifier = Some oid\<rparr>"

definition accepted_without_id :: "exn + enable_response" where
  "accepted_without_id = Inr \<lparr>operationIdentifier = None\<rparr>"

definition governed_error :: "exn + enable_response" where
  "governed_error =
     Inl (ClientError ''ConflictException'' ''Target OU is already governed by Control Tower'')"

definition busy_error :: "exn + enable_response" where
  "busy_error =
     Inl (ClientError ''ConflictException''
            ''Cannot enable baseline: another operation is in progress on the target'')"

definition throttling_error :: "exn + enable_response" where
  "throttling_error = Inl (ClientError ''ThrottlingException'' ''Rate exceeded'')"

definition with_status :: "string \<Rightarrow> exn + operation_response" where
  "with_status s = Inr \<lparr>baselineOperation = Some \<lparr>status = Some s\<rparr>\<rparr>"

definition sample_client ::
  "(exn + enable_response) list \<Rightarrow> (exn + enable_response) \<Rightarrow>
   (exn + operation_response) list \<Rightarrow> (exn + operation_response) \<Rightarrow> client" where
  "sample_client es e ps p =
     \<lparr>list_baselines =
        Inr [\<lparr>baseline_name = ''AuditBaseline'', baseline_arn = ''arn:baseline/audit''\<rparr>,
             \<lparr>baseline_name = ''AWSControlTowerBaseline'', baseline_arn = ''arn:baseline/ct''\<rparr>,
             \<lparr>baseline_name = ''AWSControlTowerBaseline'', baseline_arn = ''arn:baseline/dup''\<rparr>],
      list_enabled_baselines =
        Inr [\<lparr>enabled_arn = ''enabledbaseline/x''\<rparr>, \<lparr>enabled_arn = ''arn:enabledbaseline/ic''\<rparr>],
      enable_baseline_api = (\<lambda>k req. script es e k),
      get_baseline_operation = (\<lambda>k operation_id. script ps p k)\<rparr>"

definition empty_client :: client where
  "empty_client =
     \<lparr>list_baselines = Inr [\<lparr>baseline_name = ''AuditBaseline'', baseline_arn = ''arn:baseline/audit''\<rparr>],
      list_enabled_baselines = Inr [\<lparr>enabled_arn = ''enabledbaseline/x''\<rparr>],
      enable_baseline_api = (\<lambda>k req. accepted ''op-1''),
      get_baseline_operation = (\<lambda>k operation_id. with_status ''SUCCEEDED'')\<rparr>"

definition throttled_once :: client where
  "throttled_once =
     sample_client [throttling_error] (accepted ''op-1'') [] (with_status ''SUCCEEDED'')"

definition governed_client :: client where
  "governed_client = sample_client [] governed_error [] (with_status ''SUCCEEDED'')"

definition busy_twice :: client where
  "busy_twice =
     sample_client [busy_error, busy_error] (accepted ''op-7'')
       [with_status ''IN_PROGRESS'', with_status ''IN_PROGRESS''] (with_status ''SUCCEEDED'')"

definition always_busy :: client where
  "always_busy = sample_client [] busy_error [] (with_status ''IN_PROGRESS'')"

definition no_id_client :: client where
  "no_id_client = sample_client [] accepted_without_id [] (with_status ''SUCCEEDED'')"

definition second_fails :: client where
  "second_fails =
     sample_client [] (accepted ''op-1'') [with_status ''SUCCEEDED''] (with_status ''FAILED'')"

definition second_fails_boto3 :: "string \<Rightarrow> client" where
  "second_fails_boto3 region = second_fails"

definition throttled_once_boto3 :: "string \<Rightarrow> client" where
  "throttled_once_boto3 region = throttled_once"

definition busy_then_no_id :: client where
  "busy_then_no_id =
     sample_client [busy_error, busy_error] accepted_without_id [] (with_status ''SUCCEEDED'')"

definition unreachable :: "exn + operation_response" where
  "unreachable = Inl (Exception ''Could not connect to the endpoint URL'')"

definition poll_breaks :: client where
  "poll_breaks =
     sample_client [] (accepted ''op-1'') [unreachable] (with_status ''SUCCEEDED'')"

definition polls_unreachable :: client where
  "polls_unreachable = sample_client [] (accepted ''op-1'') [] unreachable"

definition audit_arn :: string where
  "audit_arn = ''arn:aws:controltower:us-east-1:111122223333:enabledbaseline/AUDIT''"

definition identity_center_arn_sample :: string where
  "identity_center_arn_sample =
     ''arn:aws:controltower:us-east-1:111122223333:enabledbaseline/IDENTITYCENTER''"

definition audit_first :: client where
  "audit_first =
     \<lparr>list_baselines =
        Inr [\<lparr>baseline_name = ''AWSControlTowerBaseline'', baseline_arn = ''arn:baseline/ct''\<rparr>],
      list_enabled_baselines =
        Inr [\<lparr>enabled_arn = audit_arn\<rparr>, \<lparr>enabled_arn = identity_center_arn_sample\<rparr>],
      enable_baseline_api = (\<lambda>k req. accepted ''op-1''),
      get_baseline_operation = (\<lambda>k operation_id. with_status ''SUCCEEDED'')\<rparr>"

definition audit_only :: client where
  "audit_only =
     \<lparr>list_baselines =
        Inr [\<lparr>baseline_name = ''AWSControlTowerBaseline'', baseline_arn = ''arn:baseline/ct''\<rparr>],
      list_enabled_baselines = Inr [\<lparr>enabled_arn = audit_arn\<rparr>],
      enable_baseline_api = (\<lambda>k req. accepted ''op-1''),
      get_baseline_operation = (\<lambda>k operation_id. with_status ''SUCCEEDED'')\<rparr>"

definition ou_1 :: organizational_unit where
  "ou_1 = \<lparr>key_id = ''ou-1'', key_arn = ''arn:ou/1''\<rparr>"

definition ou_2 :: organizational_unit where
  "ou_2 = \<lparr>key_id = ''ou-2'', key_arn = ''arn:ou/2''\<rparr>"

definition ou_3 :: organizational_unit where
  "ou_3 = \<lparr>key_id = ''ou-3'', key_arn = ''arn:ou/3''\<rparr>"

section \<open>Effects of the building blocks\<close>

lemma py_in_sublist: "py_in sub s = sublist sub s"
  by (induction s) (auto simp: sublist_Cons_right)

lemma enable_calls_simps [simp]:
  "enable_calls [] = 0"
  "enable_calls (print p w) = enable_calls w"
  "enable_calls (sleep n w) = enable_calls w"
  "enable_calls (w @ [CallEnableBaseline req]) = Suc (enable_calls w)"
  "enable_calls (w @ [CallGetBaselineOperation op]) = enable_calls w"
  "enable_calls (w @ [CallListBaselines]) = enable_calls w"
  "enable_calls (w @ [CallListEnabledBaselines]) = enable_calls w"
  by (simp_all add: enable_calls_def print_def sleep_def)

lemma poll_calls_simps [simp]:
  "poll_calls [] = 0"
  "poll_calls (print p w) = poll_calls w"
  "poll_calls (sleep n w) = poll_calls w"
  "poll_calls (w @ [CallEnableBaseline req]) = poll_calls w"
  "poll_calls (w @ [CallGetBaselineOperation op]) = Suc (poll_calls w)"
  "poll_calls (w @ [CallListBaselines]) = poll_calls w"
  "poll_calls (w @ [CallListEnabledBaselines]) = poll_calls w"
  by (simp_all add: poll_calls_def print_def sleep_def)

lemma slept_simps [simp]:
  "slept [] = 0"
  "slept (print p w) = slept w"
  "slept (sleep n w) = slept w + n"
  "slept (w @ [CallEnableBaseline req]) = slept w"
  "slept (w @ [CallGetBaselineOperation op]) = slept w"
  "slept (w @ [CallListBaselines]) = slept w"
  "slept (w @ [CallListEnabledBaselines]) = slept w"
  by (simp_all add: slept_def print_def sleep_def)

lemma find_baseline_none:
  "\<forall>b\<in>set bs. baseline_name b \<noteq> ''AWSControlTowerBaseline'' \<Longrightarrow>
   find_baseline bs = Inl (Exception ''AWSControlTowerBaseline not found'')"
  by (induction bs) simp_all

lemma find_baseline_first:
  "\<forall>x\<in>set pre. baseline_name x \<noteq> ''AWSControlTowerBaseline'' \<Longrightarrow>
   baseline_name b = ''AWSControlTowerBaseline'' \<Longrightarrow>
   find_baseline (pre @ b # post) = Inr (baseline_arn b)"
  by (induction pre) simp_all

lemma find_enabled_baseline_none:
  "\<forall>b\<in>set bs. \<not> py_in ''arn'' (enabled_arn b) \<Longrightarrow>
   find_enabled_baseline bs = Inl (Exception ''IdentityCenterBaseline not found'')"
  by (induction bs) simp_all

lemma find_enabled_baseline_first:
  "\<forall>x\<in>set pre. \<not> py_in ''arn'' (enabled_arn x) \<Longrightarrow>
   py_in ''arn'' (enabled_arn b) \<Longrightarrow>
   find_enabled_baseline (pre @ b # post) = Inr (enabled_arn b)"
  by (induction pre) simp_all

lemma registrations_simps [simp]:
  "registrations [] = []"
  "registrations (print p w) = registrations w @ registering (Print p)"
  "registrations (sleep n w) = registrations w"
  "registrations (w @ [CallEnableBaseline req]) = registrations w"
  "registrations (w @ [CallGetBaselineOperation op]) = registrations w"
  "registrations (w @ [CallListBaselines]) = registrations w"
  "registrations (w @ [CallListEnabledBaselines]) = registrations w"
  by (simp_all add: registrations_def print_def sleep_def)

lemma enable_baseline_result:
  "fst (enable_baseline c ou_id ou_arn bi ic w) =
     (case enable_baseline_api c (enable_calls w) (enable_request_for ou_arn bi ic) of
        Inr response \<Rightarrow> Inr (operationIdentifier response)
      | Inl e \<Rightarrow>
          if already_governed_conflict (Inl e) then Inr None
          else if in_progress_conflict (Inl e) then Inr (Some ''IN_PROGRESS'')
          else Inl e)"
  by (simp add: enable_baseline_def call_enable_baseline_def Let_def
        split: sum.splits exn.splits)

lemma enable_baseline_effects:
  "enable_calls (snd (enable_baseline c ou_id ou_arn bi ic w)) = Suc (enable_calls w)"
  "poll_calls (snd (enable_baseline c ou_id ou_arn bi ic w)) = poll_calls w"
  "slept (snd (enable_baseline c ou_id ou_arn bi ic w)) = slept w"
  "registrations (snd (enable_baseline c ou_id ou_arn bi ic w)) = registrations w"
  by (simp_all add: enable_baseline_def call_enable_baseline_def Let_def
        split: sum.splits exn.splits)

lemma wait_loop_retry_step:
  assumes err: "enable_baseline_api c (enable_calls w) (enable_request_for ou_arn bi ic) = Inl e"
    and ng: "\<not> already_governed_conflict (Inl e)"
  shows "\<exists>w'. wait_loop c ou_id ou_arn bi ic (Suc n) w = wait_loop c ou_id ou_arn bi ic n w' \<and>
              enable_calls w' = Suc (enable_calls w) \<and> poll_calls w' = poll_calls w \<and>
              slept w' = slept w + 60 \<and> registrations w' = registrations w"
proof -
  obtain r w1 where eb: "enable_baseline c ou_id ou_arn bi ic w = (r, w1)"
    by (cases "enable_baseline c ou_id ou_arn bi ic w")
  have r: "r = (if in_progress_conflict (Inl e) then Inr (Some ''IN_PROGRESS'') else Inl e)"
    using enable_baseline_result [of c ou_id ou_arn bi ic w] eb err ng by simp
  have w1: "enable_calls w1 = Suc (enable_calls w)" "poll_calls w1 = poll_calls w"
    "slept w1 = slept w" "registrations w1 = registrations w"
    using enable_baseline_effects [of c ou_id ou_arn bi ic w] eb by simp_all
  show ?thesis
  proof (cases "in_progress_conflict (Inl e)")
    case True
    then have "wait_loop c ou_id ou_arn bi ic (Suc n) w =
               wait_loop c ou_id ou_arn bi ic n (sleep 60 w1)"
      using eb r by simp
    then show ?thesis using w1 by (intro exI [of _ "sleep 60 w1"]) simp
  next
    case False
    then have "wait_loop c ou_id ou_arn bi ic (Suc n) w =
               wait_loop c ou_id ou_arn bi ic n (sleep 60 (print (ErrorWhileWaiting e) w1))"
      using eb r by simp
    then show ?thesis using w1
      by (intro exI [of _ "sleep 60 (print (ErrorWhileWaiting e) w1)"]) simp
  qed
qed

lemma wait_loop_exhausted:
  "\<forall>k<n. (\<exists>e. enable_baseline_api c (enable_calls w + k) (enable_request_for ou_arn bi ic) = Inl e) \<and>
          \<not> already_governed_conflict
              (enable_baseline_api c (enable_calls w + k) (enable_request_for ou_arn bi ic)) \<Longrightarrow>
   fst (wait_loop c ou_id ou_arn bi ic n w) =
     Inl (Exception (''Timed out waiting for in-progress operations for OU '' @ ou_id)) \<and>
   enable_calls (snd (wait_loop c ou_id ou_arn bi ic n w)) = enable_calls w + n \<and>
   poll_calls (snd (wait_loop c ou_id ou_arn bi ic n w)) = poll_calls w \<and>
   slept (snd (wait_loop c ou_id ou_arn bi ic n w)) = slept w + 60 * n"
proof (induction n arbitrary: w)
  case 0
  then show ?case by simp
next
  case (Suc n)
  from Suc.prems [rule_format, of 0] obtain e where
    e: "enable_baseline_api c (enable_calls w) (enable_request_for ou_arn bi ic) = Inl e"
    and ng: "\<not> already_governed_conflict (Inl e)" by auto
  from wait_loop_retry_step [OF e ng, of ou_id n] obtain w' where
    w': "wait_loop c ou_id ou_arn bi ic (Suc n) w = wait_loop c ou_id ou_arn bi ic n w'"
    "enable_calls w' = Suc (enable_calls w)" "poll_calls w' = poll_calls w"
    "slept w' = slept w + 60" by blast
  have "\<forall>k<n. (\<exists>e. enable_baseline_api c (enable_calls w' + k) (enable_request_for ou_arn bi ic) = Inl e) \<and>
          \<not> already_governed_conflict
              (enable_baseline_api c (enable_calls w' + k) (enable_request_for ou_arn bi ic))"
    using Suc.prems [rule_format, of "Suc k" for k] w'(2) by simp
  from Suc.IH [OF this] show ?case using w' by (simp del: wait_loop.simps)
qed

lemma wait_loop_accepted:
  assumes "enable_baseline_api c (enable_calls w) (enable_request_for ou_arn bi ic) = Inr response"
  shows "wait_loop c ou_id ou_arn bi ic (Suc n) w =
           (if truthy (operationIdentifier response) \<and>
               operationIdentifier response \<noteq> Some ''IN_PROGRESS''
            then (Inr (operationIdentifier response),
                  print (EnableBaselineResponse response)
                    (w @ [CallEnableBaseline (enable_request_for ou_arn bi ic)]))
            else if operationIdentifier response = None
            then (Inr None,
                  print (EnableBaselineResponse response)
                    (w @ [CallEnableBaseline (enable_request_for ou_arn bi ic)]))
            else wait_loop c ou_id ou_arn bi ic n
                   (sleep 60 (print (EnableBaselineResponse response)
                      (w @ [CallEnableBaseline (enable_request_for ou_arn bi ic)]))))"
  using assms by (simp add: enable_baseline_def call_enable_baseline_def)

lemma wait_loop_after_retries:
  "N < n \<Longrightarrow>
   \<forall>k<N. (\<exists>e. enable_baseline_api c (enable_calls w + k) (enable_request_for ou_arn bi ic) = Inl e) \<and>
          \<not> already_governed_conflict
              (enable_baseline_api c (enable_calls w + k) (enable_request_for ou_arn bi ic)) \<Longrightarrow>
   enable_baseline_api c (enable_calls w + N) (enable_request_for ou_arn bi ic) = Inr response \<Longrightarrow>
   operationIdentifier response = Some oid \<Longrightarrow> oid \<noteq> [] \<Longrightarrow> oid \<noteq> ''IN_PROGRESS'' \<Longrightarrow>
   fst (wait_loop c ou_id ou_arn bi ic n w) = Inr (Some oid) \<and>
   enable_calls (snd (wait_loop c ou_id ou_arn bi ic n w)) = enable_calls w + N + 1 \<and>
   poll_calls (snd (wait_loop c ou_id ou_arn bi ic n w)) = poll_calls w \<and>
   slept (snd (wait_loop c ou_id ou_arn bi ic n w)) = slept w + 60 * N"
proof (induction N arbitrary: n w)
  case 0
  then obtain m where n: "n = Suc m" by (cases n) auto
  have "enable_baseline_api c (enable_calls w) (enable_request_for ou_arn bi ic) = Inr response"
    using 0 by simp
  from wait_loop_accepted [OF this, of ou_id m] 0 show ?case
    unfolding n by (simp del: wait_loop.simps)
next
  case (Suc N)
  then obtain m where n: "n = Suc m" and m: "N < m" by (cases n) auto
  from Suc.prems(2) [rule_format, of 0] obtain e where
    e: "enable_baseline_api c (enable_calls w) (enable_request_for ou_arn bi ic) = Inl e"
    and ng: "\<not> already_governed_conflict (Inl e)" by auto
  from wait_loop_retry_step [OF e ng, of ou_id m] obtain w' where
    w': "wait_loop c ou_id ou_arn bi ic (Suc m) w = wait_loop c ou_id ou_arn bi ic m w'"
    "enable_calls w' = Suc (enable_calls w)" "poll_calls w' = poll_calls w"
    "slept w' = slept w + 60" by blast
  have a: "\<forall>k<N. (\<exists>e. enable_baseline_api c (enable_calls w' + k) (enable_request_for ou_arn bi ic) = Inl e) \<and>
          \<not> already_governed_conflict
              (enable_baseline_api c (enable_calls w' + k) (enable_request_for ou_arn bi ic))"
    using Suc.prems(2) [rule_format, of "Suc k" for k] w'(2) by simp
  have b: "enable_baseline_api c (enable_calls w' + N) (enable_request_for ou_arn bi ic) = Inr response"
    using Suc.prems(3) w'(2) by simp
  from Suc.IH [OF m a b Suc.prems(4,5,6)] show ?case
    unfolding n using w' by (simp del: wait_loop.simps)
qed

lemma wait_loop_poll_calls:
  "poll_calls (snd (wait_loop c ou_id ou_arn bi ic n w)) = poll_calls w"
proof (induction n arbitrary: w)
  case 0
  then show ?case by simp
next
  case (Suc n)
  obtain r w1 where eb: "enable_baseline c ou_id ou_arn bi ic w = (r, w1)"
    by (cases "enable_baseline c ou_id ou_arn bi ic w")
  have w1: "poll_calls w1 = poll_calls w"
    using enable_baseline_effects(2) [of c ou_id ou_arn bi ic w] eb by simp
  show ?case using eb w1 Suc.IH by (simp split: sum.splits)
qed

lemma wait_loop_registrations:
  "registrations (snd (wait_loop c ou_id ou_arn bi ic n w)) = registrations w"
proof (induction n arbitrary: w)
  case 0
  then show ?case by simp
next
  case (Suc n)
  obtain r w1 where eb: "enable_baseline c ou_id ou_arn bi ic w = (r, w1)"
    by (cases "enable_baseline c ou_id ou_arn bi ic w")
  have w1: "registrations w1 = registrations w"
    using enable_baseline_effects(4) [of c ou_id ou_arn bi ic w] eb by simp
  show ?case using eb w1 Suc.IH by (simp split: sum.splits)
qed

lemma poll_terminal_step:
  assumes "terminal (get_baseline_operation c (poll_calls w) op)"
  shows "fst (check_operation_status_loop c op (Suc n) w) =
           Inr (succeeded (get_baseline_operation c (poll_calls w) op)) \<and>
         poll_calls (snd (check_operation_status_loop c op (Suc n) w)) = Suc (poll_calls w) \<and>
         slept (snd (check_operation_status_loop c op (Suc n) w)) = slept w \<and>
         enable_calls (snd (check_operation_status_loop c op (Suc n) w)) = enable_calls w \<and>
         registrations (snd (check_operation_status_loop c op (Suc n) w)) = registrations w"
  using assms
  by (auto simp: terminal_def succeeded_def failed_def call_get_baseline_operation_def Let_def
        split: sum.splits exn.splits option.splits)

lemma poll_nonterminal_step:
  assumes "\<not> terminal (get_baseline_operation c (poll_calls w) op)"
    and "\<not> unanswered (get_baseline_operation c (poll_calls w) op)"
  shows "\<exists>w'. check_operation_status_loop c op (Suc n) w = check_operation_status_loop c op n w' \<and>
              poll_calls w' = Suc (poll_calls w) \<and> slept w' = slept w + 30 \<and>
              enable_calls w' = enable_calls w \<and> registrations w' = registrations w"
proof (cases "get_baseline_operation c (poll_calls w) op")
  case (Inl e)
  with assms(2) obtain code message where e: "e = ClientError code message"
    by (cases e) auto
  show ?thesis
    by (rule exI [of _ "sleep 30 (print (ErrorCheckingOperationStatus e)
                          (w @ [CallGetBaselineOperation op]))"])
       (simp add: Inl e call_get_baseline_operation_def)
next
  case (Inr response)
  show ?thesis
  proof (cases "poll_status (Inr response)")
    case None
    then show ?thesis
      by (intro exI [of _ "sleep 30 (print (StatusNotFound response)
            (print (BaselineOperationResponse response) (w @ [CallGetBaselineOperation op])))"])
         (simp add: Inr call_get_baseline_operation_def)
  next
    case (Some s)
    show ?thesis
    proof (cases "s = []")
      case True
      with Some show ?thesis
        by (intro exI [of _ "sleep 30 (print (StatusNotFound response)
              (print (BaselineOperationResponse response) (w @ [CallGetBaselineOperation op])))"])
           (simp add: Inr call_get_baseline_operation_def)
    next
      case False
      moreover have "s \<noteq> ''SUCCEEDED''" "s \<noteq> ''FAILED''"
        using assms(1) Some Inr by (auto simp: terminal_def succeeded_def failed_def)
      ultimately show ?thesis using Some
        by (intro exI [of _ "sleep 30 (print (OperationStatus s)
              (print (BaselineOperationResponse response) (w @ [CallGetBaselineOperation op])))"])
           (simp add: Inr call_get_baseline_operation_def Let_def)
    qed
  qed
qed

lemma poll_loop_exhausted:
  "\<forall>j<n. \<not> terminal (get_baseline_operation c (poll_calls w + j) op) \<and>
          \<not> unanswered (get_baseline_operation c (poll_calls w + j) op) \<Longrightarrow>
   fst (check_operation_status_loop c op n w) = Inr False \<and>
   poll_calls (snd (check_operation_status_loop c op n w)) = poll_calls w + n \<and>
   slept (snd (check_operation_status_loop c op n w)) = slept w + 30 * n"
proof (induction n arbitrary: w)
  case 0
  then show ?case by simp
next
  case (Suc n)
  from Suc.prems [rule_format, of 0] have
    "\<not> terminal (get_baseline_operation c (poll_calls w) op)"
    "\<not> unanswered (get_baseline_operation c (poll_calls w) op)" by auto
  from poll_nonterminal_step [OF this, of n] obtain w' where
    w': "check_operation_status_loop c op (Suc n) w = check_operation_status_loop c op n w'"
    "poll_calls w' = Suc (poll_calls w)" "slept w' = slept w + 30" by blast
  have "\<forall>j<n. \<not> terminal (get_baseline_operation c (poll_calls w' + j) op) \<and>
          \<not> unanswered (get_baseline_operation c (poll_calls w' + j) op)"
    using Suc.prems [rule_format, of "Suc j" for j] w'(2) by simp
  from Suc.IH [OF this] show ?case
    using w' by (simp del: check_operation_status_loop.simps)
qed

lemma poll_loop_first_terminal:
  "k < n \<Longrightarrow>
   \<forall>j<k. \<not> terminal (get_baseline_operation c (poll_calls w + j) op) \<and>
          \<not> unanswered (get_baseline_operation c (poll_calls w + j) op) \<Longrightarrow>
   terminal (get_baseline_operation c (poll_calls w + k) op) \<Longrightarrow>
   fst (check_operation_status_loop c op n w) =
     Inr (succeeded (get_baseline_operation c (poll_calls w + k) op)) \<and>
   poll_calls (snd (check_operation_status_loop c op n w)) = poll_calls w + k + 1 \<and>
   slept (snd (check_operation_status_loop c op n w)) = slept w + 30 * k"
proof (induction k arbitrary: n w)
  case 0
  then obtain m where n: "n = Suc m" by (cases n) auto
  have "terminal (get_baseline_operation c (poll_calls w) op)" using 0 by simp
  from poll_terminal_step [OF this, of m] show ?case
    unfolding n by (simp del: check_operation_status_loop.simps)
next
  case (Suc k)
  then obtain m where n: "n = Suc m" and m: "k < m" by (cases n) auto
  from Suc.prems(2) [rule_format, of 0] have
    "\<not> terminal (get_baseline_operation c (poll_calls w) op)"
    "\<not> unanswered (get_baseline_operation c (poll_calls w) op)" by auto
  from poll_nonterminal_step [OF this, of m] obtain w' where
    w': "check_operation_status_loop c op (Suc m) w = check_operation_status_loop c op m w'"
    "poll_calls w' = Suc (poll_calls w)" "slept w' = slept w + 30" by blast
  have a: "\<forall>j<k. \<not> terminal (get_baseline_operation c (poll_calls w' + j) op) \<and>
          \<not> unanswered (get_baseline_operation c (poll_calls w' + j) op)"
    using Suc.prems(2) [rule_format, of "Suc j" for j] w'(2) by simp
  have b: "terminal (get_baseline_operation c (poll_calls w' + k) op)"
    using Suc.prems(3) w'(2) by simp
  from Suc.IH [OF m a b] show ?case
    unfolding n using w' by (simp del: check_operation_status_loop.simps)
qed

lemma poll_loop_registrations:
  "registrations (snd (check_operation_status_loop c op n w)) = registrations w"
proof (induction n arbitrary: w)
  case 0
  then show ?case by simp
next
  case (Suc n)
  then show ?case
    by (simp add: call_get_baseline_operation_def Let_def
          split: sum.splits exn.splits option.splits)
qed

lemma in_progress_conflict_retried:
  "in_progress_conflict r \<Longrightarrow> (\<exists>e. r = Inl e) \<and> \<not> already_governed_conflict r"
  by (cases r rule: in_progress_conflict.cases) auto

lemma register_ou_registrations:
  "registrations (snd (register_ou c ou_id ou_arn bi ic w)) = registrations w @ [ou_id]"
proof -
  obtain r w1 where wl: "wait_loop c ou_id ou_arn bi ic 20 (print (RegisteringOU ou_id) w) = (r, w1)"
    by (cases "wait_loop c ou_id ou_arn bi ic 20 (print (RegisteringOU ou_id) w)")
  have w1: "registrations w1 = registrations w @ [ou_id]"
    using wait_loop_registrations [of c ou_id ou_arn bi ic 20 "print (RegisteringOU ou_id) w"] wl
    by simp
  have pl: "registrations (snd (check_operation_status_loop c s 40 w1)) = registrations w1" for s
    by (rule poll_loop_registrations)
  show ?thesis
    using wl w1 pl
    by (simp add: register_ou_def wait_for_in_progress_operations_def
          check_operation_status_def split_beta split: sum.splits option.splits)
qed

lemma registrations_fold:
  "registrations (fold (registrar_world c bi ic) ous w) = registrations w @ map key_id ous"
  by (induction ous arbitrary: w) (simp_all add: registrar_world_def register_ou_registrations)

lemma register_ous_loop_all:
  "\<forall>i<length ous. registrar_result c bi ic (ous ! i) (fold (registrar_world c bi ic) (take i ous) w) \<Longrightarrow>
   register_ous_loop c ous bi ic w = (Returned, fold (registrar_world c bi ic) ous w)"
proof (induction ous arbitrary: w)
  case Nil
  then show ?case by simp
next
  case (Cons ou ous)
  from Cons.prems [rule_format, of 0] have h: "registrar_result c bi ic ou w" by simp
  have "\<forall>i<length ous. registrar_result c bi ic (ous ! i)
           (fold (registrar_world c bi ic) (take i ous) (registrar_world c bi ic ou w))"
    using Cons.prems [rule_format, of "Suc i" for i] by simp
  from Cons.IH [OF this] h show ?case
    by (simp add: registrar_result_def registrar_world_def split_beta)
qed

lemma register_ous_loop_first_failure:
  "k < length ous \<Longrightarrow>
   \<forall>i<k. registrar_result c bi ic (ous ! i) (fold (registrar_world c bi ic) (take i ous) w) \<Longrightarrow>
   \<not> registrar_result c bi ic (ous ! k) (fold (registrar_world c bi ic) (take k ous) w) \<Longrightarrow>
   register_ous_loop c ous bi ic w =
     (SystemExit 1, print (StoppingTheProcess (key_id (ous ! k)))
                      (fold (registrar_world c bi ic) (take (Suc k) ous) w))"
proof (induction ous arbitrary: k w)
  case Nil
  then show ?case by simp
next
  case (Cons ou ous)
  show ?case
  proof (cases k)
    case 0
    with Cons.prems(3) show ?thesis
      by (simp add: registrar_result_def registrar_world_def split_beta)
  next
    case (Suc j)
    from Cons.prems(2) [rule_format, of 0] Suc have h: "registrar_result c bi ic ou w" by simp
    have j: "j < length ous" using Cons.prems(1) Suc by simp
    have a: "\<forall>i<j. registrar_result c bi ic (ous ! i)
           (fold (registrar_world c bi ic) (take i ous) (registrar_world c bi ic ou w))"
      using Cons.prems(2) [rule_format, of "Suc i" for i] Suc by simp
    have b: "\<not> registrar_result c bi ic (ous ! j)
           (fold (registrar_world c bi ic) (take j ous) (registrar_world c bi ic ou w))"
      using Cons.prems(3) Suc by simp
    from Cons.IH [OF j a b] h Suc show ?thesis
      by (simp add: registrar_result_def registrar_world_def split_beta)
  qed
qed

lemma resolved_registrations:
  assumes "get_baseline_identifier c w = (Inr bi, w1)"
    and "get_identity_center_enabled_baseline_arn c w1 = (Inr ic, w2)"
  shows "registrations w2 = registrations w"
  using assms
  by (auto simp: get_baseline_identifier_def get_identity_center_enabled_baseline_arn_def
        call_list_baselines_def call_list_enabled_baselines_def registrations_def
        split: sum.splits)

lemma wait_loop_retried_step:
  assumes "retried (enable_baseline_api c (enable_calls w) (enable_request_for ou_arn bi ic))"
  shows "\<exists>w'. wait_loop c ou_id ou_arn bi ic (Suc n) w = wait_loop c ou_id ou_arn bi ic n w' \<and>
              enable_calls w' = Suc (enable_calls w) \<and> poll_calls w' = poll_calls w \<and>
              slept w' = slept w + 60 \<and> registrations w' = registrations w"
proof (cases "enable_baseline_api c (enable_calls w) (enable_request_for ou_arn bi ic)")
  case (Inl e)
  with assms have "\<not> already_governed_conflict (Inl e)" by simp
  from wait_loop_retry_step [OF Inl this] show ?thesis .
next
  case (Inr response)
  with assms have "\<not> (truthy (operationIdentifier response) \<and>
      operationIdentifier response \<noteq> Some ''IN_PROGRESS'')"
    and "operationIdentifier response \<noteq> None" by auto
  with wait_loop_accepted [OF Inr, of ou_id n]
  have "wait_loop c ou_id ou_arn bi ic (Suc n) w =
        wait_loop c ou_id ou_arn bi ic n
          (sleep 60 (print (EnableBaselineResponse response)
             (w @ [CallEnableBaseline (enable_request_for ou_arn bi ic)])))"
    by (simp del: wait_loop.simps)
  then show ?thesis
    by (intro exI [of _ "sleep 60 (print (EnableBaselineResponse response)
             (w @ [CallEnableBaseline (enable_request_for ou_arn bi ic)]))"]) simp
qed

lemma wait_loop_none_after_retries:
  "N < n \<Longrightarrow>
   \<forall>k<N. retried (enable_baseline_api c (enable_calls w + k) (enable_request_for ou_arn bi ic)) \<Longrightarrow>
   enable_baseline_api c (enable_calls w + N) (enable_request_for ou_arn bi ic) = Inr response \<Longrightarrow>
   operationIdentifier response = None \<Longrightarrow>
   fst (wait_loop c ou_id ou_arn bi ic n w) = Inr None \<and>
   enable_calls (snd (wait_loop c ou_id ou_arn bi ic n w)) = enable_calls w + N + 1 \<and>
   slept (snd (wait_loop c ou_id ou_arn bi ic n w)) = slept w + 60 * N"
proof (induction N arbitrary: n w)
  case 0
  then obtain m where n: "n = Suc m" by (cases n) auto
  have "enable_baseline_api c (enable_calls w) (enable_request_for ou_arn bi ic) = Inr response"
    using 0 by simp
  from wait_loop_accepted [OF this, of ou_id m] 0 show ?case
    unfolding n by (simp del: wait_loop.simps)
next
  case (Suc N)
  then obtain m where n: "n = Suc m" and m: "N < m" by (cases n) auto
  from Suc.prems(2) [rule_format, of 0]
  have "retried (enable_baseline_api c (enable_calls w) (enable_request_for ou_arn bi ic))"
    by simp
  from wait_loop_retried_step [OF this, of ou_id m] obtain w' where
    w': "wait_loop c ou_id ou_arn bi ic (Suc m) w = wait_loop c ou_id ou_arn bi ic m w'"
    "enable_calls w' = Suc (enable_calls w)" "slept w' = slept w + 60" by blast
  have a: "\<forall>k<N. retried
      (enable_baseline_api c (enable_calls w' + k) (enable_request_for ou_arn bi ic))"
    using Suc.prems(2) [rule_format, of "Suc k" for k] w'(2) by simp
  have b: "enable_baseline_api c (enable_calls w' + N) (enable_request_for ou_arn bi ic) = Inr response"
    using Suc.prems(3) w'(2) by simp
  from Suc.IH [OF m a b Suc.prems(4)] show ?case
    unfolding n using w' by (simp del: wait_loop.simps)
qed

lemmas sample_defs =
  sample_client_def script_def accepted_def accepted_without_id_def governed_error_def
  busy_error_def throttling_error_def with_status_def empty_client_def throttled_once_def
  governed_client_def busy_twice_def always_busy_def no_id_client_def second_fails_def
  second_fails_boto3_def throttled_once_boto3_def ou_1_def ou_2_def ou_3_def
  busy_then_no_id_def unreachable_def poll_breaks_def polls_unreachable_def

section \<open>Properties\<close>

subsection \<open>Resolving the baseline identifier\<close>

text \<open>
  Claim C9. \<^verbatim>\<open>get_baseline_identifier\<close> walks the list answered by \<^verbatim>\<open>list_baselines\<close>.
  When no entry is named exactly \<^verbatim>\<open>AWSControlTowerBaseline\<close> it raises the not-found
  exception. When the list splits into a front part without that name, an entry \<open>b\<close> with
  that name and any rest (further entries of that name included), it returns the
  \<^verbatim>\<open>arn\<close> of \<open>b\<close>: the first match wins.
\<close>

theorem get_baseline_identifier_first_match:
  assumes "list_baselines c = Inr bs"
  shows "((\<forall>b\<in>set bs. baseline_name b \<noteq> ''AWSControlTowerBaseline'') \<longrightarrow>
            fst (get_baseline_identifier c w) =
              Inl (Exception ''AWSControlTowerBaseline not found'')) \<and>
         (\<forall>pre b post.
            bs = pre @ b # post \<and>
            (\<forall>x\<in>set pre. baseline_name x \<noteq> ''AWSControlTowerBaseline'') \<and>
            baseline_name b = ''AWSControlTowerBaseline'' \<longrightarrow>
            fst (get_baseline_identifier c w) = Inr (baseline_arn b))"
  using assms
  by (auto simp: get_baseline_identifier_def call_list_baselines_def
        find_baseline_none find_baseline_first)

theorem get_baseline_identifier_first_match_witness:
  "list_baselines governed_client =
     Inr [\<lparr>baseline_name = ''AuditBaseline'', baseline_arn = ''arn:baseline/audit''\<rparr>,
          \<lparr>baseline_name = ''AWSControlTowerBaseline'', baseline_arn = ''arn:baseline/ct''\<rparr>,
          \<lparr>baseline_name = ''AWSControlTowerBaseline'', baseline_arn = ''arn:baseline/dup''\<rparr>] \<and>
   fst (get_baseline_identifier governed_client []) = Inr ''arn:baseline/ct'' \<and>
   list_baselines empty_client =
     Inr [\<lparr>baseline_name = ''AuditBaseline'', baseline_arn = ''arn:baseline/audit''\<rparr>] \<and>
   fst (get_baseline_identifier empty_client []) =
     Inl (Exception ''AWSControlTowerBaseline not found'')"
proof -
  have a: "list_baselines governed_client =
     Inr [\<lparr>baseline_name = ''AuditBaseline'', baseline_arn = ''arn:baseline/audit''\<rparr>,
          \<lparr>baseline_name = ''AWSControlTowerBaseline'', baseline_arn = ''arn:baseline/ct''\<rparr>,
          \<lparr>baseline_name = ''AWSControlTowerBaseline'', baseline_arn = ''arn:baseline/dup''\<rparr>]"
    by (simp add: sample_defs)
  have b: "list_baselines empty_client =
     Inr [\<lparr>baseline_name = ''AuditBaseline'', baseline_arn = ''arn:baseline/audit''\<rparr>]"
    by (simp add: sample_defs)
  have "fst (get_baseline_identifier governed_client []) = Inr ''arn:baseline/ct''"
    using get_baseline_identifier_first_match [OF a, of "[]", THEN conjunct2, rule_format,
        of "[\<lparr>baseline_name = ''AuditBaseline'', baseline_arn = ''arn:baseline/audit''\<rparr>]"
           "\<lparr>baseline_name = ''AWSControlTowerBaseline'', baseline_arn = ''arn:baseline/ct''\<rparr>"
           "[\<lparr>baseline_name = ''AWSControlTowerBaseline'', baseline_arn = ''arn:baseline/dup''\<rparr>]"]
    by simp
  moreover have "fst (get_baseline_identifier empty_client []) =
     Inl (Exception ''AWSControlTowerBaseline not found'')"
    using get_baseline_identifier_first_match [OF b, of "[]", THEN conjunct1] by simp
  ultimately show ?thesis using a b by simp
qed

subsection \<open>Resolving the identity-center enabled baseline\<close>

text \<open>
  What the lookup computes. The test of the source is \<^verbatim>\<open>'arn' in baseline['arn']\<close>:
  when no entry's ARN contains the text \<^verbatim>\<open>arn\<close> it raises the not-found exception;
  otherwise it returns the ARN of the first entry that does.
\<close>

lemma first_enabled_arn_containing_arn:
  assumes "list_enabled_baselines c = Inr bs"
  shows "((\<forall>b\<in>set bs. \<not> py_in ''arn'' (enabled_arn b)) \<longrightarrow>
            fst (get_identity_center_enabled_baseline_arn c w) =
              Inl (Exception ''IdentityCenterBaseline not found'')) \<and>
         (\<forall>pre b post.
            bs = pre @ b # post \<and>
            (\<forall>x\<in>set pre. \<not> py_in ''arn'' (enabled_arn x)) \<and>
            py_in ''arn'' (enabled_arn b) \<longrightarrow>
            fst (get_identity_center_enabled_baseline_arn c w) = Inr (enabled_arn b))"
  using assms
  by (auto simp: get_identity_center_enabled_baseline_arn_def call_list_enabled_baselines_def
        find_enabled_baseline_none find_enabled_baseline_first)

text \<open>
  Claim C1 asks for the first entry whose ARN carries an identity-center marker, and for
  not-found when there is none. The text the source looks for, \<^verbatim>\<open>arn\<close>, is in every
  ARN, so the lookup returns the first enabled baseline whatever it is: with the audit
  baseline listed before the identity-center one it returns the audit ARN, and with the
  audit baseline alone it returns that ARN where the claim, the name of the function and
  its message \<^verbatim>\<open>IdentityCenterBaseline not found\<close> ask for the exception.
\<close>

theorem identity_center_lookup_returns_first_arn:
  "fst (get_identity_center_enabled_baseline_arn audit_first []) = Inr audit_arn \<and>
   fst (get_identity_center_enabled_baseline_arn audit_only []) = Inr audit_arn \<and>
   audit_arn \<noteq> identity_center_arn_sample \<and>
   py_in ''IDENTITYCENTER'' identity_center_arn_sample \<and>
   \<not> py_in ''IDENTITYCENTER'' audit_arn"
  by code_simp

subsection \<open>Classification of the enable answer\<close>

text \<open>
  Claim C3. What \<^verbatim>\<open>enable_baseline\<close> returns or raises, by the answer of the control
  plane to its call: a \<^verbatim>\<open>ConflictException\<close> whose message contains
  \<^verbatim>\<open>already governed\<close> gives \<open>None\<close>; a \<^verbatim>\<open>ConflictException\<close> whose message
  contains \<^verbatim>\<open>another operation is in progress\<close> (and not the first phrase, which the
  source tests before) gives the sentinel \<^verbatim>\<open>'IN_PROGRESS'\<close>; an accepted call gives the
  \<^verbatim>\<open>operationIdentifier\<close> of the response; every other \<^verbatim>\<open>ClientError\<close> is raised
  again unchanged.
\<close>

theorem enable_baseline_classification:
  "(\<forall>m. enable_baseline_api c (enable_calls w) (enable_request_for ou_arn bi ic) =
          Inl (ClientError ''ConflictException'' m) \<and> py_in ''already governed'' m \<longrightarrow>
        fst (enable_baseline c ou_id ou_arn bi ic w) = Inr None) \<and>
   (\<forall>m. enable_baseline_api c (enable_calls w) (enable_request_for ou_arn bi ic) =
          Inl (ClientError ''ConflictException'' m) \<and> \<not> py_in ''already governed'' m \<and>
        py_in ''another operation is in progress'' m \<longrightarrow>
        fst (enable_baseline c ou_id ou_arn bi ic w) = Inr (Some ''IN_PROGRESS'')) \<and>
   (\<forall>response. enable_baseline_api c (enable_calls w) (enable_request_for ou_arn bi ic) =
          Inr response \<longrightarrow>
        fst (enable_baseline c ou_id ou_arn bi ic w) = Inr (operationIdentifier response)) \<and>
   (\<forall>code m. enable_baseline_api c (enable_calls w) (enable_request_for ou_arn bi ic) =
          Inl (ClientError code m) \<and>
        \<not> (code = ''ConflictException'' \<and>
           (py_in ''already governed'' m \<or> py_in ''another operation is in progress'' m)) \<longrightarrow>
        fst (enable_baseline c ou_id ou_arn bi ic w) = Inl (ClientError code m))"
  by (simp add: enable_baseline_result)

theorem enable_baseline_classification_witness:
  "fst (enable_baseline governed_client ''ou-1'' ''arn:ou/1'' ''arn:baseline/ct''
          ''arn:enabledbaseline/ic'' []) = Inr None \<and>
   fst (enable_baseline always_busy ''ou-1'' ''arn:ou/1'' ''arn:baseline/ct''
          ''arn:enabledbaseline/ic'' []) = Inr (Some ''IN_PROGRESS'') \<and>
   fst (enable_baseline second_fails ''ou-1'' ''arn:ou/1'' ''arn:baseline/ct''
          ''arn:enabledbaseline/ic'' []) = Inr (Some ''op-1'') \<and>
   fst (enable_baseline throttled_once ''ou-1'' ''arn:ou/1'' ''arn:baseline/ct''
          ''arn:enabledbaseline/ic'' []) =
     Inl (ClientError ''ThrottlingException'' ''Rate exceeded'')"
proof -
  have "fst (enable_baseline governed_client ''ou-1'' ''arn:ou/1'' ''arn:baseline/ct''
          ''arn:enabledbaseline/ic'' []) = Inr None"
    using enable_baseline_classification [of governed_client "[]" "''arn:ou/1''"
        "''arn:baseline/ct''" "''arn:enabledbaseline/ic''" "''ou-1''", THEN conjunct1,
        rule_format, of "''Target OU is already governed by Control Tower''"]
    by (simp add: sample_defs)
  moreover have "fst (enable_baseline always_busy ''ou-1'' ''arn:ou/1'' ''arn:baseline/ct''
          ''arn:enabledbaseline/ic'' []) = Inr (Some ''IN_PROGRESS'')"
    using enable_baseline_classification [of always_busy "[]" "''arn:ou/1''"
        "''arn:baseline/ct''" "''arn:enabledbaseline/ic''" "''ou-1''",
        THEN conjunct2, THEN conjunct1, rule_format,
        of "''Cannot enable baseline: another operation is in progress on the target''"]
    by (simp add: sample_defs)
  moreover have "fst (enable_baseline second_fails ''ou-1'' ''arn:ou/1'' ''arn:baseline/ct''
          ''arn:enabledbaseline/ic'' []) = Inr (Some ''op-1'')"
    using enable_baseline_classification [of second_fails "[]" "''arn:ou/1''"
        "''arn:baseline/ct''" "''arn:enabledbaseline/ic''" "''ou-1''",
        THEN conjunct2, THEN conjunct2, THEN conjunct1, rule_format,
        of "\<lparr>operationIdentifier = Some ''op-1''\<rparr>"]
    by (simp add: sample_defs)
  moreover have "fst (enable_baseline throttled_once ''ou-1'' ''arn:ou/1'' ''arn:baseline/ct''
          ''arn:enabledbaseline/ic'' []) =
     Inl (ClientError ''ThrottlingException'' ''Rate exceeded'')"
    using enable_baseline_classification [of throttled_once "[]" "''arn:ou/1''"
        "''arn:baseline/ct''" "''arn:enabledbaseline/ic''" "''ou-1''",
        THEN conjunct2, THEN conjunct2, THEN conjunct2, rule_format,
        of "''ThrottlingException''" "''Rate exceeded''"]
    by (simp add: sample_defs)
  ultimately show ?thesis by blast
qed

subsection \<open>Errors of an enable attempt inside the backoff loop\<close>

text \<open>
  Claim C2 as stated says that such an error leaves the enable path unmasked and aborts the
  run. It does not: with a control plane that throttles the first enable call and accepts
  the second, \<^verbatim>\<open>enable_baseline\<close> raises the throttling error, yet
  \<^verbatim>\<open>wait_for_in_progress_operations\<close> returns the operation identifier of the second
  attempt and the run of \<^verbatim>\<open>register_ous\<close> returns normally.
\<close>

theorem throttled_enable_is_masked:
  "fst (enable_baseline throttled_once ''ou-1'' ''arn:ou/1'' ''arn:baseline/ct''
          ''arn:enabledbaseline/ic'' []) =
     Inl (ClientError ''ThrottlingException'' ''Rate exceeded'') \<and>
   fst (wait_for_in_progress_operations throttled_once ''ou-1'' ''arn:ou/1''
          ''arn:baseline/ct'' ''arn:enabledbaseline/ic'' []) = Inr (Some ''op-1'') \<and>
   fst (register_ous throttled_once_boto3 ''us-east-1'' [ou_1] []) = Returned"
  by code_simp

text \<open>
  Claim C2, as amended. An error of an enable attempt that is neither an already-governed
  conflict nor an in-progress conflict is raised by \<^verbatim>\<open>enable_baseline\<close> unchanged. The
  backoff loop catches it (\<^verbatim>\<open>except Exception\<close>), prints it, sleeps 60 and goes on
  with the attempts that remain of its budget.
\<close>

theorem unclassified_error_is_retried:
  assumes "enable_baseline_api c (enable_calls w) (enable_request_for ou_arn bi ic) = Inl e"
    and "\<not> already_governed_conflict (Inl e)"
    and "\<not> in_progress_conflict (Inl e)"
  shows "fst (enable_baseline c ou_id ou_arn bi ic w) = Inl e \<and>
         wait_loop c ou_id ou_arn bi ic (Suc n) w =
           wait_loop c ou_id ou_arn bi ic n
             (sleep 60 (print (ErrorWhileWaiting e) (snd (enable_baseline c ou_id ou_arn bi ic w))))"
proof -
  have r: "fst (enable_baseline c ou_id ou_arn bi ic w) = Inl e"
    using assms by (simp add: enable_baseline_result)
  then show ?thesis
    by (cases "enable_baseline c ou_id ou_arn bi ic w") simp
qed

theorem unclassified_error_is_retried_witness:
  "enable_baseline_api throttled_once (enable_calls [])
     (enable_request_for ''arn:ou/1'' ''arn:baseline/ct'' ''arn:enabledbaseline/ic'') =
     Inl (ClientError ''ThrottlingException'' ''Rate exceeded'') \<and>
   \<not> already_governed_conflict (Inl (ClientError ''ThrottlingException'' ''Rate exceeded'')) \<and>
   \<not> in_progress_conflict (Inl (ClientError ''ThrottlingException'' ''Rate exceeded'')) \<and>
   fst (enable_baseline throttled_once ''ou-1'' ''arn:ou/1'' ''arn:baseline/ct''
          ''arn:enabledbaseline/ic'' []) =
     Inl (ClientError ''ThrottlingException'' ''Rate exceeded'') \<and>
   wait_loop throttled_once ''ou-1'' ''arn:ou/1'' ''arn:baseline/ct''
       ''arn:enabledbaseline/ic'' (Suc 19) [] =
     wait_loop throttled_once ''ou-1'' ''arn:ou/1'' ''arn:baseline/ct''
       ''arn:enabledbaseline/ic'' 19
       (sleep 60 (print (ErrorWhileWaiting (ClientError ''ThrottlingException'' ''Rate exceeded''))
          (snd (enable_baseline throttled_once ''ou-1'' ''arn:ou/1'' ''arn:baseline/ct''
                  ''arn:enabledbaseline/ic'' []))))"
proof -
  have a: "enable_baseline_api throttled_once (enable_calls [])
     (enable_request_for ''arn:ou/1'' ''arn:baseline/ct'' ''arn:enabledbaseline/ic'') =
     Inl (ClientError ''ThrottlingException'' ''Rate exceeded'')"
    by (simp add: sample_defs)
  have b: "\<not> already_governed_conflict (Inl (ClientError ''ThrottlingException'' ''Rate exceeded''))"
    by simp
  have c: "\<not> in_progress_conflict (Inl (ClientError ''ThrottlingException'' ''Rate exceeded''))"
    by simp
  from unclassified_error_is_retried [OF a b c, of "''ou-1''" 19] a b c
  show ?thesis by blast
qed

subsection \<open>Verdict of the operation poller\<close>

text \<open>
  The verdict when the control plane answers each of the 40 polls, with a response or with
  a \<^verbatim>\<open>ClientError\<close>. Then \<^verbatim>\<open>check_operation_status\<close> returns \<^verbatim>\<open>True\<close> exactly
  when some poll within the budget carries the status \<^verbatim>\<open>SUCCEEDED\<close> and no earlier
  poll carries \<^verbatim>\<open>FAILED\<close>. It returns at the first terminal status, poll number
  \<open>k + 1\<close>, after \<open>k\<close> sleeps of 30; and 40 polls without a terminal status give
  \<^verbatim>\<open>False\<close> after 40 polls.
\<close>

lemma answered_polls_verdict:
  assumes ans: "\<forall>j<40. \<not> unanswered (get_baseline_operation c (poll_calls w + j) op)"
  shows "(fst (check_operation_status c op w) = Inr True \<longleftrightarrow>
            (\<exists>k<40. succeeded (get_baseline_operation c (poll_calls w + k) op) \<and>
               (\<forall>j<k. \<not> failed (get_baseline_operation c (poll_calls w + j) op)))) \<and>
         (\<forall>k<40. terminal (get_baseline_operation c (poll_calls w + k) op) \<and>
               (\<forall>j<k. \<not> terminal (get_baseline_operation c (poll_calls w + j) op)) \<longrightarrow>
            fst (check_operation_status c op w) =
              Inr (succeeded (get_baseline_operation c (poll_calls w + k) op)) \<and>
            poll_calls (snd (check_operation_status c op w)) = poll_calls w + k + 1 \<and>
            slept (snd (check_operation_status c op w)) = slept w + 30 * k) \<and>
         ((\<forall>j<40. \<not> terminal (get_baseline_operation c (poll_calls w + j) op)) \<longrightarrow>
            fst (check_operation_status c op w) = Inr False \<and>
            poll_calls (snd (check_operation_status c op w)) = poll_calls w + 40)"
proof -
  let ?P = "\<lambda>j. get_baseline_operation c (poll_calls w + j) op"
  have first: "fst (check_operation_status c op w) = Inr (succeeded (?P k)) \<and>
      poll_calls (snd (check_operation_status c op w)) = poll_calls w + k + 1 \<and>
      slept (snd (check_operation_status c op w)) = slept w + 30 * k"
    if k: "k < 40" and t: "terminal (?P k)" and b: "\<forall>j<k. \<not> terminal (?P j)" for k
  proof -
    have "\<forall>j<k. \<not> terminal (?P j) \<and> \<not> unanswered (?P j)"
      using b ans k by auto
    from poll_loop_first_terminal [OF k this t] show ?thesis
      by (simp add: check_operation_status_def)
  qed
  have none: "fst (check_operation_status c op w) = Inr False \<and>
      poll_calls (snd (check_operation_status c op w)) = poll_calls w + 40"
    if "\<forall>j<40. \<not> terminal (?P j)"
  proof -
    have "\<forall>j<40. \<not> terminal (?P j) \<and> \<not> unanswered (?P j)"
      using that ans by auto
    from poll_loop_exhausted [OF this] show ?thesis
      by (simp add: check_operation_status_def)
  qed
  have iff: "fst (check_operation_status c op w) = Inr True \<longleftrightarrow>
            (\<exists>k<40. succeeded (?P k) \<and> (\<forall>j<k. \<not> failed (?P j)))"
  proof
    assume res: "fst (check_operation_status c op w) = Inr True"
    have "\<exists>j<40. terminal (?P j)"
      using none res by auto
    then have "\<exists>k. (k < 40 \<and> terminal (?P k)) \<and> (\<forall>j<k. \<not> (j < 40 \<and> terminal (?P j)))"
      by (subst (asm) exists_least_iff) auto
    then obtain k where k: "k < 40" "terminal (?P k)" "\<forall>j<k. \<not> terminal (?P j)"
      by auto
    from first [OF k] res have "succeeded (?P k)" by simp
    moreover have "\<forall>j<k. \<not> failed (?P j)" using k(3) by (simp add: terminal_def)
    ultimately show "\<exists>k<40. succeeded (?P k) \<and> (\<forall>j<k. \<not> failed (?P j))"
      using k(1) by blast
  next
    assume "\<exists>k<40. succeeded (?P k) \<and> (\<forall>j<k. \<not> failed (?P j))"
    then obtain k where k: "k < 40" "succeeded (?P k)" "\<forall>j<k. \<not> failed (?P j)" by blast
    then have "\<exists>j. j < 40 \<and> terminal (?P j)" by (auto simp: terminal_def)
    then have "\<exists>m. (m < 40 \<and> terminal (?P m)) \<and> (\<forall>j<m. \<not> (j < 40 \<and> terminal (?P j)))"
      by (subst (asm) exists_least_iff) auto
    then obtain m where m: "m < 40" "terminal (?P m)" "\<forall>j<m. \<not> terminal (?P j)"
      by auto
    have "m \<le> k"
    proof (rule ccontr)
      assume "\<not> m \<le> k"
      then have "k < m" by simp
      with m(3) k(2) show False by (simp add: terminal_def)
    qed
    have "succeeded (?P m)"
    proof (cases "m = k")
      case True
      with k(2) show ?thesis by simp
    next
      case False
      with \<open>m \<le> k\<close> have "m < k" by simp
      with k(3) have "\<not> failed (?P m)" by simp
      with m(2) show ?thesis by (simp add: terminal_def)
    qed
    with first [OF m] show "fst (check_operation_status c op w) = Inr True" by simp
  qed
  show ?thesis
    using iff first none by blast
qed

text \<open>
  Claim C5 speaks of every sequence of polls and counts a poll error as a non-terminal
  poll. The poller catches \<^verbatim>\<open>ClientError\<close> only, where the backoff loop catches
  \<^verbatim>\<open>Exception\<close>: a poll that raises any other exception ends the poller with that
  exception. With a first poll that cannot reach the endpoint and a second that would
  carry \<^verbatim>\<open>SUCCEEDED\<close>, the poller raises after one poll and \<^verbatim>\<open>register_ou\<close>
  reports failure; with 40 such polls it raises after the first instead of returning
  \<^verbatim>\<open>False\<close> after 40.
\<close>

theorem unanswered_poll_leaves_the_poller:
  "succeeded (get_baseline_operation poll_breaks 1 ''op-1'') \<and>
   check_operation_status poll_breaks ''op-1'' [] =
     (Inl (Exception ''Could not connect to the endpoint URL''),
      [CallGetBaselineOperation ''op-1'']) \<and>
   \<not> fst (register_ou poll_breaks ''ou-1'' ''arn:ou/1'' ''arn:baseline/ct''
            ''arn:enabledbaseline/ic'' []) \<and>
   check_operation_status polls_unreachable ''op-1'' [] =
     (Inl (Exception ''Could not connect to the endpoint URL''),
      [CallGetBaselineOperation ''op-1''])"
  by code_simp

subsection \<open>The backoff loop after conflicts\<close>

text \<open>
  Claim C6. For \<open>N < 20\<close>: when the first \<open>N\<close> enable attempts meet an in-progress
  conflict and attempt \<open>N + 1\<close> is accepted with a normal operation identifier (not empty,
  not the sentinel), \<^verbatim>\<open>wait_for_in_progress_operations\<close> returns that identifier, having
  made \<open>N + 1\<close> enable calls and slept \<open>N\<close> times 60.
\<close>

theorem wait_for_in_progress_operations_after_conflicts:
  assumes "N < 20"
    and "\<forall>k<N. in_progress_conflict
           (enable_baseline_api c (enable_calls w + k) (enable_request_for ou_arn bi ic))"
    and "enable_baseline_api c (enable_calls w + N) (enable_request_for ou_arn bi ic) = Inr response"
    and "operationIdentifier response = Some oid"
    and "oid \<noteq> []" and "oid \<noteq> ''IN_PROGRESS''"
  shows "fst (wait_for_in_progress_operations c ou_id ou_arn bi ic w) = Inr (Some oid) \<and>
         enable_calls (snd (wait_for_in_progress_operations c ou_id ou_arn bi ic w)) =
           enable_calls w + N + 1 \<and>
         slept (snd (wait_for_in_progress_operations c ou_id ou_arn bi ic w)) = slept w + 60 * N"
proof -
  have "\<forall>k<N. (\<exists>e. enable_baseline_api c (enable_calls w + k) (enable_request_for ou_arn bi ic) = Inl e) \<and>
          \<not> already_governed_conflict
              (enable_baseline_api c (enable_calls w + k) (enable_request_for ou_arn bi ic))"
    using assms(2) in_progress_conflict_retried by blast
  from wait_loop_after_retries [OF assms(1) this assms(3-6)] show ?thesis
    by (simp add: wait_for_in_progress_operations_def)
qed

theorem wait_for_in_progress_operations_after_conflicts_witness:
  "(2::nat) < 20 \<and>
   in_progress_conflict
      (enable_baseline_api busy_twice (enable_calls [] + 0)
         (enable_request_for ''arn:ou/1'' ''arn:baseline/ct'' ''arn:enabledbaseline/ic'')) \<and>
   in_progress_conflict
      (enable_baseline_api busy_twice (enable_calls [] + 1)
         (enable_request_for ''arn:ou/1'' ''arn:baseline/ct'' ''arn:enabledbaseline/ic'')) \<and>
   enable_baseline_api busy_twice (enable_calls [] + 2)
      (enable_request_for ''arn:ou/1'' ''arn:baseline/ct'' ''arn:enabledbaseline/ic'') =
     Inr \<lparr>operationIdentifier = Some ''op-7''\<rparr> \<and>
   fst (wait_for_in_progress_operations busy_twice ''ou-1'' ''arn:ou/1'' ''arn:baseline/ct''
          ''arn:enabledbaseline/ic'' []) = Inr (Some ''op-7'') \<and>
   enable_calls (snd (wait_for_in_progress_operations busy_twice ''ou-1'' ''arn:ou/1''
          ''arn:baseline/ct'' ''arn:enabledbaseline/ic'' [])) = 3 \<and>
   slept (snd (wait_for_in_progress_operations busy_twice ''ou-1'' ''arn:ou/1''
          ''arn:baseline/ct'' ''arn:enabledbaseline/ic'' [])) = 120"
proof -
  have n: "(2::nat) < 20" by simp
  have a: "\<forall>k<2. in_progress_conflict
      (enable_baseline_api busy_twice (enable_calls [] + k)
         (enable_request_for ''arn:ou/1'' ''arn:baseline/ct'' ''arn:enabledbaseline/ic''))"
    by (simp add: sample_defs nth_Cons')
  have b: "enable_baseline_api busy_twice (enable_calls [] + 2)
      (enable_request_for ''arn:ou/1'' ''arn:baseline/ct'' ''arn:enabledbaseline/ic'') =
     Inr \<lparr>operationIdentifier = Some ''op-7''\<rparr>"
    by (simp add: sample_defs)
  from wait_for_in_progress_operations_after_conflicts [OF n a b, of "''op-7''" "''ou-1''"]
    n a [rule_format, of 0] a [rule_format, of 1] b
  show ?thesis by simp
qed

subsection \<open>The backoff loop out of budget\<close>

text \<open>
  Claim C7. When each of the 20 enable attempts is rejected with an error other than an
  already-governed conflict (an in-progress conflict, which \<^verbatim>\<open>enable_baseline\<close> turns
  into the sentinel, or any error it raises), \<^verbatim>\<open>wait_for_in_progress_operations\<close>
  raises its timeout exception after 20 enable calls and 20 sleeps of 60.
\<close>

theorem wait_for_in_progress_operations_times_out:
  assumes "\<forall>k<20. (\<exists>e. enable_baseline_api c (enable_calls w + k)
                          (enable_request_for ou_arn bi ic) = Inl e) \<and>
             \<not> already_governed_conflict
                 (enable_baseline_api c (enable_calls w + k) (enable_request_for ou_arn bi ic))"
  shows "fst (wait_for_in_progress_operations c ou_id ou_arn bi ic w) =
           Inl (Exception (''Timed out waiting for in-progress operations for OU '' @ ou_id)) \<and>
         enable_calls (snd (wait_for_in_progress_operations c ou_id ou_arn bi ic w)) =
           enable_calls w + 20 \<and>
         slept (snd (wait_for_in_progress_operations c ou_id ou_arn bi ic w)) = slept w + 1200"
  using wait_loop_exhausted [OF assms, of ou_id]
  by (simp add: wait_for_in_progress_operations_def)

theorem wait_for_in_progress_operations_times_out_witness:
  "in_progress_conflict
     (enable_baseline_api always_busy (enable_calls [] + 19)
        (enable_request_for ''arn:ou/1'' ''arn:baseline/ct'' ''arn:enabledbaseline/ic'')) \<and>
   fst (wait_for_in_progress_operations always_busy ''ou-1'' ''arn:ou/1'' ''arn:baseline/ct''
          ''arn:enabledbaseline/ic'' []) =
     Inl (Exception ''Timed out waiting for in-progress operations for OU ou-1'') \<and>
   enable_calls (snd (wait_for_in_progress_operations always_busy ''ou-1'' ''arn:ou/1''
          ''arn:baseline/ct'' ''arn:enabledbaseline/ic'' [])) = 20 \<and>
   slept (snd (wait_for_in_progress_operations always_busy ''ou-1'' ''arn:ou/1''
          ''arn:baseline/ct'' ''arn:enabledbaseline/ic'' [])) = 1200"
proof -
  have a: "\<forall>k<20. (\<exists>e. enable_baseline_api always_busy (enable_calls [] + k)
                (enable_request_for ''arn:ou/1'' ''arn:baseline/ct'' ''arn:enabledbaseline/ic'') =
                Inl e) \<and>
       \<not> already_governed_conflict
           (enable_baseline_api always_busy (enable_calls [] + k)
              (enable_request_for ''arn:ou/1'' ''arn:baseline/ct'' ''arn:enabledbaseline/ic''))"
    by (simp add: sample_defs)
  have l: "in_progress_conflict
     (enable_baseline_api always_busy (enable_calls [] + 19)
        (enable_request_for ''arn:ou/1'' ''arn:baseline/ct'' ''arn:enabledbaseline/ic''))"
    by (simp add: sample_defs)
  from wait_for_in_progress_operations_times_out [OF a, of "''ou-1''"] l
  show ?thesis by simp
qed

subsection \<open>Already registered: no polling\<close>

text \<open>
  Claim C8. Whenever the backoff loop, run by \<^verbatim>\<open>register_ou\<close> after its first print,
  returns \<open>None\<close>, \<^verbatim>\<open>register_ou\<close> returns \<^verbatim>\<open>True\<close> and no
  \<^verbatim>\<open>get_baseline_operation\<close> call is added to the trace.
\<close>

theorem register_ou_skips_polling:
  assumes "fst (wait_for_in_progress_operations c ou_id ou_arn bi ic
                  (print (RegisteringOU ou_id) w)) = Inr None"
  shows "fst (register_ou c ou_id ou_arn bi ic w) \<and>
         poll_calls (snd (register_ou c ou_id ou_arn bi ic w)) = poll_calls w"
proof -
  have "poll_calls (snd (wait_for_in_progress_operations c ou_id ou_arn bi ic
                  (print (RegisteringOU ou_id) w))) = poll_calls w"
    by (simp add: wait_for_in_progress_operations_def wait_loop_poll_calls)
  with assms show ?thesis
    by (simp add: register_ou_def split_beta)
qed

theorem register_ou_skips_polling_witness:
  "fst (wait_for_in_progress_operations governed_client ''ou-1'' ''arn:ou/1'' ''arn:baseline/ct''
          ''arn:enabledbaseline/ic'' (print (RegisteringOU ''ou-1'') [])) = Inr None \<and>
   fst (register_ou governed_client ''ou-1'' ''arn:ou/1'' ''arn:baseline/ct''
          ''arn:enabledbaseline/ic'' []) \<and>
   poll_calls (snd (register_ou governed_client ''ou-1'' ''arn:ou/1'' ''arn:baseline/ct''
          ''arn:enabledbaseline/ic'' [])) = 0"
proof -
  have a: "fst (wait_for_in_progress_operations governed_client ''ou-1'' ''arn:ou/1''
          ''arn:baseline/ct'' ''arn:enabledbaseline/ic'' (print (RegisteringOU ''ou-1'') [])) =
          Inr None"
    by code_simp
  from register_ou_skips_polling [OF a] a show ?thesis by simp
qed

subsection \<open>An accepted call without operation identifier\<close>

text \<open>
  Claim C10. Every enable call that is accepted with a response without
  \<^verbatim>\<open>operationIdentifier\<close> makes \<^verbatim>\<open>enable_baseline\<close> return \<open>None\<close>, in any world.
  When such an acceptance comes after \<open>N < 20\<close> attempts that the backoff loop retried,
  the loop passes the \<open>None\<close> on and \<^verbatim>\<open>register_ou\<close> returns \<^verbatim>\<open>True\<close> after
  \<open>N + 1\<close> enable calls, its last line that of a skipped, already registered OU, without
  any poll.
\<close>

theorem missing_operation_id_is_skipped:
  "(\<forall>v response.
      enable_baseline_api c (enable_calls v) (enable_request_for ou_arn bi ic) = Inr response \<and>
      operationIdentifier response = None \<longrightarrow>
      fst (enable_baseline c ou_id ou_arn bi ic v) = Inr None) \<and>
   (\<forall>N response.
      N < 20 \<and>
      (\<forall>k<N. retried
         (enable_baseline_api c (enable_calls w + k) (enable_request_for ou_arn bi ic))) \<and>
      enable_baseline_api c (enable_calls w + N) (enable_request_for ou_arn bi ic) = Inr response \<and>
      operationIdentifier response = None \<longrightarrow>
      fst (wait_for_in_progress_operations c ou_id ou_arn bi ic w) = Inr None \<and>
      fst (register_ou c ou_id ou_arn bi ic w) \<and>
      enable_calls (snd (register_ou c ou_id ou_arn bi ic w)) = enable_calls w + N + 1 \<and>
      poll_calls (snd (register_ou c ou_id ou_arn bi ic w)) = poll_calls w \<and>
      last (snd (register_ou c ou_id ou_arn bi ic w)) = Print (SkippedOU ou_id))"
proof (intro conjI allI impI)
  fix v response
  assume "enable_baseline_api c (enable_calls v) (enable_request_for ou_arn bi ic) = Inr response \<and>
      operationIdentifier response = None"
  then show "fst (enable_baseline c ou_id ou_arn bi ic v) = Inr None"
    by (simp add: enable_baseline_result)
next
  fix N response
  assume h: "N < 20 \<and>
      (\<forall>k<N. retried
         (enable_baseline_api c (enable_calls w + k) (enable_request_for ou_arn bi ic))) \<and>
      enable_baseline_api c (enable_calls w + N) (enable_request_for ou_arn bi ic) = Inr response \<and>
      operationIdentifier response = None"
  then have N: "N < 20"
    and r: "\<forall>k<N. retried
         (enable_baseline_api c (enable_calls w + k) (enable_request_for ou_arn bi ic))"
    and a: "enable_baseline_api c (enable_calls w + N) (enable_request_for ou_arn bi ic) = Inr response"
    and i: "operationIdentifier response = None" by auto
  from wait_loop_none_after_retries [OF N r a i, of ou_id]
  show "fst (wait_for_in_progress_operations c ou_id ou_arn bi ic w) = Inr None"
    by (simp add: wait_for_in_progress_operations_def)
  let ?w0 = "print (RegisteringOU ou_id) w"
  have r0: "\<forall>k<N. retried
         (enable_baseline_api c (enable_calls ?w0 + k) (enable_request_for ou_arn bi ic))"
    using r by simp
  have a0: "enable_baseline_api c (enable_calls ?w0 + N) (enable_request_for ou_arn bi ic) = Inr response"
    using a by simp
  obtain x w1 where wl: "wait_loop c ou_id ou_arn bi ic 20 ?w0 = (x, w1)"
    by (cases "wait_loop c ou_id ou_arn bi ic 20 ?w0")
  from wait_loop_none_after_retries [OF N r0 a0 i, of ou_id] wl
  have x: "x = Inr None" and e: "enable_calls w1 = enable_calls w + N + 1" by simp_all
  have p: "poll_calls w1 = poll_calls w"
    using wait_loop_poll_calls [of c ou_id ou_arn bi ic 20 ?w0] wl by simp
  have reg: "register_ou c ou_id ou_arn bi ic w = (True, print (SkippedOU ou_id) w1)"
    using wl x by (simp add: register_ou_def wait_for_in_progress_operations_def)
  show "fst (register_ou c ou_id ou_arn bi ic w)" using reg by simp
  show "enable_calls (snd (register_ou c ou_id ou_arn bi ic w)) = enable_calls w + N + 1"
    using reg e by simp
  show "poll_calls (snd (register_ou c ou_id ou_arn bi ic w)) = poll_calls w"
    using reg p by simp
  show "last (snd (register_ou c ou_id ou_arn bi ic w)) = Print (SkippedOU ou_id)"
    using reg by (simp add: print_def)
qed

theorem missing_operation_id_is_skipped_witness:
  "retried (enable_baseline_api busy_then_no_id (enable_calls [] + 0)
      (enable_request_for ''arn:ou/1'' ''arn:baseline/ct'' ''arn:enabledbaseline/ic'')) \<and>
   retried (enable_baseline_api busy_then_no_id (enable_calls [] + 1)
      (enable_request_for ''arn:ou/1'' ''arn:baseline/ct'' ''arn:enabledbaseline/ic'')) \<and>
   enable_baseline_api busy_then_no_id (enable_calls [] + 2)
      (enable_request_for ''arn:ou/1'' ''arn:baseline/ct'' ''arn:enabledbaseline/ic'') =
     Inr \<lparr>operationIdentifier = None\<rparr> \<and>
   fst (wait_for_in_progress_operations busy_then_no_id ''ou-1'' ''arn:ou/1''
          ''arn:baseline/ct'' ''arn:enabledbaseline/ic'' []) = Inr None \<and>
   fst (register_ou busy_then_no_id ''ou-1'' ''arn:ou/1'' ''arn:baseline/ct''
          ''arn:enabledbaseline/ic'' []) \<and>
   enable_calls (snd (register_ou busy_then_no_id ''ou-1'' ''arn:ou/1'' ''arn:baseline/ct''
          ''arn:enabledbaseline/ic'' [])) = 3 \<and>
   poll_calls (snd (register_ou busy_then_no_id ''ou-1'' ''arn:ou/1'' ''arn:baseline/ct''
          ''arn:enabledbaseline/ic'' [])) = 0 \<and>
   last (snd (register_ou busy_then_no_id ''ou-1'' ''arn:ou/1'' ''arn:baseline/ct''
          ''arn:enabledbaseline/ic'' [])) = Print (SkippedOU ''ou-1'') \<and>
   fst (enable_baseline no_id_client ''ou-1'' ''arn:ou/1'' ''arn:baseline/ct''
          ''arn:enabledbaseline/ic'' []) = Inr None \<and>
   register_ou no_id_client ''ou-1'' ''arn:ou/1'' ''arn:baseline/ct''
          ''arn:enabledbaseline/ic'' [] =
     (True, [Print (RegisteringOU ''ou-1''),
             CallEnableBaseline
               (enable_request_for ''arn:ou/1'' ''arn:baseline/ct'' ''arn:enabledbaseline/ic''),
             Print (EnableBaselineResponse \<lparr>operationIdentifier = None\<rparr>),
             Print (SkippedOU ''ou-1'')])"
proof -
  have r: "\<forall>k<2. retried (enable_baseline_api busy_then_no_id (enable_calls [] + k)
      (enable_request_for ''arn:ou/1'' ''arn:baseline/ct'' ''arn:enabledbaseline/ic''))"
    by (simp add: sample_defs nth_Cons')
  have a: "enable_baseline_api busy_then_no_id (enable_calls [] + 2)
      (enable_request_for ''arn:ou/1'' ''arn:baseline/ct'' ''arn:enabledbaseline/ic'') =
     Inr \<lparr>operationIdentifier = None\<rparr>"
    by (simp add: sample_defs)
  have b: "enable_baseline_api no_id_client (enable_calls [])
      (enable_request_for ''arn:ou/1'' ''arn:baseline/ct'' ''arn:enabledbaseline/ic'') =
     Inr \<lparr>operationIdentifier = None\<rparr>"
    by (simp add: sample_defs)
  have full: "register_ou no_id_client ''ou-1'' ''arn:ou/1'' ''arn:baseline/ct''
          ''arn:enabledbaseline/ic'' [] =
     (True, [Print (RegisteringOU ''ou-1''),
             CallEnableBaseline
               (enable_request_for ''arn:ou/1'' ''arn:baseline/ct'' ''arn:enabledbaseline/ic''),
             Print (EnableBaselineResponse \<lparr>operationIdentifier = None\<rparr>),
             Print (SkippedOU ''ou-1'')])"
    by code_simp
  from missing_operation_id_is_skipped [of busy_then_no_id "''arn:ou/1''" "''arn:baseline/ct''"
      "''arn:enabledbaseline/ic''" "''ou-1''" "[]", THEN conjunct2, rule_format,
      of 2 "\<lparr>operationIdentifier = None\<rparr>"] r a
  have "fst (wait_for_in_progress_operations busy_then_no_id ''ou-1'' ''arn:ou/1''
          ''arn:baseline/ct'' ''arn:enabledbaseline/ic'' []) = Inr None \<and>
   fst (register_ou busy_then_no_id ''ou-1'' ''arn:ou/1'' ''arn:baseline/ct''
          ''arn:enabledbaseline/ic'' []) \<and>
   enable_calls (snd (register_ou busy_then_no_id ''ou-1'' ''arn:ou/1'' ''arn:baseline/ct''
          ''arn:enabledbaseline/ic'' [])) = 3 \<and>
   poll_calls (snd (register_ou busy_then_no_id ''ou-1'' ''arn:ou/1'' ''arn:baseline/ct''
          ''arn:enabledbaseline/ic'' [])) = 0 \<and>
   last (snd (register_ou busy_then_no_id ''ou-1'' ''arn:ou/1'' ''arn:baseline/ct''
          ''arn:enabledbaseline/ic'' [])) = Print (SkippedOU ''ou-1'')"
    by simp
  moreover from missing_operation_id_is_skipped [of no_id_client "''arn:ou/1''"
      "''arn:baseline/ct''" "''arn:enabledbaseline/ic''" "''ou-1''" "[]", THEN conjunct1,
      rule_format, of "[]" "\<lparr>operationIdentifier = None\<rparr>"] b
  have "fst (enable_baseline no_id_client ''ou-1'' ''arn:ou/1'' ''arn:baseline/ct''
          ''arn:enabledbaseline/ic'' []) = Inr None"
    by simp
  ultimately show ?thesis
    using r [rule_format, of 0] r [rule_format, of 1] a full by simp
qed

subsection \<open>The batch driver\<close>

text \<open>
  Claim C4. Let both identifiers resolve, leaving the world \<open>w2\<close>. The result of the
  Registrar on the \<open>i\<close>-th OU is taken in the world left by the Registrar runs on the OUs
  before it, in input order. When every OU succeeds, \<^verbatim>\<open>register_ous\<close> returns normally
  in the world left by the runs on the whole list. When the \<open>k\<close>-th OU is the first to
  fail, \<^verbatim>\<open>register_ous\<close> exits with status 1 in the world left by the runs on the OUs
  up to and including that one, plus the line that the process stops: the
  \<^verbatim>\<open>Registering OU\<close> lines printed are those of exactly these OUs, in input order, and
  no later OU is touched.
\<close>

theorem register_ous_halts_at_first_failure:
  assumes "get_baseline_identifier (boto3_client region) w = (Inr bi, w1)"
    and "get_identity_center_enabled_baseline_arn (boto3_client region) w1 = (Inr ic, w2)"
  shows "((\<forall>i<length ous. registrar_result (boto3_client region) bi ic (ous ! i)
              (fold (registrar_world (boto3_client region) bi ic) (take i ous) w2)) \<longrightarrow>
          register_ous boto3_client region ous w =
            (Returned, fold (registrar_world (boto3_client region) bi ic) ous w2) \<and>
          registrations (snd (register_ous boto3_client region ous w)) =
            registrations w @ map key_id ous) \<and>
         (\<forall>k<length ous.
            (\<forall>i<k. registrar_result (boto3_client region) bi ic (ous ! i)
               (fold (registrar_world (boto3_client region) bi ic) (take i ous) w2)) \<and>
            \<not> registrar_result (boto3_client region) bi ic (ous ! k)
               (fold (registrar_world (boto3_client region) bi ic) (take k ous) w2) \<longrightarrow>
            register_ous boto3_client region ous w =
              (SystemExit 1, print (StoppingTheProcess (key_id (ous ! k)))
                 (fold (registrar_world (boto3_client region) bi ic) (take (Suc k) ous) w2)) \<and>
            registrations (snd (register_ous boto3_client region ous w)) =
              registrations w @ map key_id (take (Suc k) ous))"
proof -
  have run: "register_ous boto3_client region ous w =
             register_ous_loop (boto3_client region) ous bi ic w2"
    using assms by (simp add: register_ous_def)
  have reg: "registrations w2 = registrations w"
    using assms by (rule resolved_registrations)
  show ?thesis
  proof (intro conjI impI allI)
    assume "\<forall>i<length ous. registrar_result (boto3_client region) bi ic (ous ! i)
              (fold (registrar_world (boto3_client region) bi ic) (take i ous) w2)"
    from register_ous_loop_all [OF this]
    show r: "register_ous boto3_client region ous w =
            (Returned, fold (registrar_world (boto3_client region) bi ic) ous w2)"
      using run by simp
    show "registrations (snd (register_ous boto3_client region ous w)) =
            registrations w @ map key_id ous"
      using r reg by (simp add: registrations_fold)
  next
    fix k
    assume k: "k < length ous"
      and h: "(\<forall>i<k. registrar_result (boto3_client region) bi ic (ous ! i)
               (fold (registrar_world (boto3_client region) bi ic) (take i ous) w2)) \<and>
            \<not> registrar_result (boto3_client region) bi ic (ous ! k)
               (fold (registrar_world (boto3_client region) bi ic) (take k ous) w2)"
    from register_ous_loop_first_failure [OF k conjunct1 [OF h] conjunct2 [OF h]]
    show r: "register_ous boto3_client region ous w =
              (SystemExit 1, print (StoppingTheProcess (key_id (ous ! k)))
                 (fold (registrar_world (boto3_client region) bi ic) (take (Suc k) ous) w2))"
      using run by simp
    show "registrations (snd (register_ous boto3_client region ous w)) =
              registrations w @ map key_id (take (Suc k) ous)"
      using r reg by (simp add: registrations_fold)
  qed
qed

theorem register_ous_halts_at_first_failure_witness:
  "register_ous second_fails_boto3 ''us-east-1'' [ou_1, ou_2, ou_3] [] =
     (SystemExit 1,
      print (StoppingTheProcess ''ou-2'')
        (fold (registrar_world second_fails ''arn:baseline/ct'' ''arn:enabledbaseline/ic'')
           [ou_1, ou_2] [CallListBaselines, CallListEnabledBaselines])) \<and>
   registrations (snd (register_ous second_fails_boto3 ''us-east-1'' [ou_1, ou_2, ou_3] [])) =
     [''ou-1'', ''ou-2'']"
proof -
  have a: "get_baseline_identifier (second_fails_boto3 ''us-east-1'') [] =
             (Inr ''arn:baseline/ct'', [CallListBaselines])"
    by code_simp
  have b: "get_identity_center_enabled_baseline_arn (second_fails_boto3 ''us-east-1'')
             [CallListBaselines] =
             (Inr ''arn:enabledbaseline/ic'', [CallListBaselines, CallListEnabledBaselines])"
    by code_simp
  have r0: "registrar_result second_fails ''arn:baseline/ct'' ''arn:enabledbaseline/ic'' ou_1
              [CallListBaselines, CallListEnabledBaselines]"
    by code_simp
  have r1: "\<not> registrar_result second_fails ''arn:baseline/ct'' ''arn:enabledbaseline/ic'' ou_2
              (registrar_world second_fails ''arn:baseline/ct'' ''arn:enabledbaseline/ic'' ou_1
                 [CallListBaselines, CallListEnabledBaselines])"
    by code_simp
  from register_ous_halts_at_first_failure
         [where boto3_client = second_fails_boto3 and region = "''us-east-1''"
            and ous = "[ou_1, ou_2, ou_3]", OF a b, THEN conjunct2, rule_format, of 1] r0 r1
  have "register_ous second_fails_boto3 ''us-east-1'' [ou_1, ou_2, ou_3] [] =
     (SystemExit 1,
      print (StoppingTheProcess (key_id ou_2))
        (fold (registrar_world second_fails ''arn:baseline/ct'' ''arn:enabledbaseline/ic'')
           [ou_1, ou_2] [CallListBaselines, CallListEnabledBaselines]))"
    and "registrations (snd (register_ous second_fails_boto3 ''us-east-1'' [ou_1, ou_2, ou_3] [])) =
     [key_id ou_1, key_id ou_2]"
    by (auto simp: second_fails_boto3_def)
  then show ?thesis
    by (simp add: ou_1_def ou_2_def)
qed

end
